theory Spec2Isabelle
  imports Complex_Main "HOL-Library.Log_Nat"
begin

section \<open>Data model\<close>

text \<open>
  The store is the SQLite database of \<^verbatim>\<open>utils.py\<close> (\<^verbatim>\<open>init_db\<close>): one list of rows
  per table. A column of type REAL (prices, balances, discount values) and a Python float
  hold a double: here it is the rational number the double denotes. The arithmetic of the
  discount computation and of the balance updates is the exact operation followed by
  \<open>fl\<close>, the rounding to the nearest double (below). The float timestamps of
  \<^verbatim>\<open>time.time()\<close> are subtracted exactly, and the sums of prices that the handlers show or
  pass on are exact sums. Integer columns hold integers. Errors of the database driver
  (\<^verbatim>\<open>sqlite3.Error\<close>) are not modelled: every statement succeeds.
\<close>

type_synonym money = rat
type_synonym timestamp = rat

text \<open>Table \<^verbatim>\<open>products\<close>: one row per lot.\<close>

record product =
  product_id :: nat
  city :: string
  district :: string
  product_type :: string
  size_p :: string
  name_p :: string
  price :: money
  available :: int
  reserved :: int
  original_text :: "string option"

text \<open>
  Column \<^verbatim>\<open>users.basket\<close> is a comma separated string of pieces
  \<^verbatim>\<open>"<product id>:<timestamp>"\<close>. A piece that parses is a \<open>Hold\<close>; any other piece
  (empty, no colon, not a number) is \<open>Malformed\<close>. The empty string is the empty list.
  Every piece written by the engine has the form \<^verbatim>\<open>f"{product_id}:{timestamp}"\<close>, so
  two pieces are the same string exactly when they are the same \<open>Hold\<close>.
\<close>

datatype basket_piece = Hold nat timestamp | Malformed string

record user_row =
  user_id :: nat
  balance :: money
  total_purchases :: int
  basket :: "basket_piece list"

text \<open>
  Table \<^verbatim>\<open>purchases\<close>: the sale log. Its \<^verbatim>\<open>product_id\<close> refers to the lot with
  \<^verbatim>\<open>ON DELETE SET NULL\<close>.
\<close>

record purchase =
  buyer_id :: nat
  sold_product_id :: "nat option"
  product_name :: string
  sold_product_type :: string
  product_size :: string
  price_paid :: money
  sold_city :: string
  sold_district :: string
  purchase_date :: timestamp

text \<open>
  Table \<^verbatim>\<open>discount_codes\<close>. Column \<^verbatim>\<open>expiry_date\<close> is NULL (or empty, which Python
  treats alike), or a text that \<^verbatim>\<open>datetime.fromisoformat\<close> rejects, or parses to a
  local time without UTC offset, or parses to a time with a UTC offset (which
  \<^verbatim>\<open>datetime.now()\<close> cannot be compared with).
\<close>

datatype expiry = Unparseable | ExpiresAt timestamp | ExpiresAtOffset timestamp

record discount_code =
  code :: string
  discount_type :: string
  value_d :: money
  is_active :: bool
  max_uses :: "int option"
  uses_count :: int
  expiry_date :: "expiry option"

record db =
  users :: "user_row list"
  products :: "product list"
  purchases :: "purchase list"
  discount_codes :: "discount_code list"

text \<open>
  The per-user session \<^verbatim>\<open>context.user_data\<close>: a cached basket (a list of dicts
  \<^verbatim>\<open>{"product_id", "price", "timestamp"}\<close>), the applied discount and the pending
  invoice. It lives in memory only: \<^verbatim>\<open>main.py\<close> configures no persistence, so a
  restarted process starts from \<open>fresh_session\<close>.
\<close>

record basket_item =
  item_product_id :: nat
  item_price :: money
  item_timestamp :: timestamp

record applied =
  applied_code :: string
  applied_amount :: money
  applied_final_total :: money

record pending =
  invoice_id :: int
  payment_type :: string
  fiat_total :: money

record session =
  basket_ctx :: "basket_item list"
  applied_discount :: "applied option"
  pending_payment :: "pending option"

definition fresh_session :: session where
  "fresh_session = \<lparr>basket_ctx = [], applied_discount = None, pending_payment = None\<rparr>"

section \<open>Discount validator (\<^verbatim>\<open>user.validate_discount_code\<close>)\<close>

text \<open>Rounding to the nearest integer, a tie going to the even neighbour.\<close>

definition round_half_even :: "rat \<Rightarrow> int" where
  "round_half_even x =
     (let f = \<lfloor>x\<rfloor>; d = x - of_int f
      in if d < 1 / 2 then f else if 1 / 2 < d then f + 1 else if even f then f else f + 1)"

text \<open>
  Doubles. \<open>binary_exponent a\<close> is the \<open>e\<close> with \<open>2^e \<le> a < 2^(e+1)\<close> for a positive
  \<open>a\<close>, found from the bit lengths of numerator and denominator; \<open>fl x\<close> is the double
  nearest to \<open>x\<close>: the multiple of \<open>2^(e-52)\<close> nearest to it, a tie going to the even
  multiple (IEEE 754 round-to-nearest-even with a 53 bit significand). The exponent is not
  bounded: overflow and subnormal numbers are not modelled.
\<close>

definition pow2 :: "int \<Rightarrow> rat" where
  "pow2 k = (if 0 \<le> k then 2 ^ nat k else 1 / 2 ^ nat (- k))"

definition binary_exponent :: "rat \<Rightarrow> int" where
  "binary_exponent a =
     (let e0 = bitlen (fst (quotient_of a)) - bitlen (snd (quotient_of a))
      in if pow2 e0 \<le> a then e0 else e0 - 1)"

definition fl :: "rat \<Rightarrow> rat" where
  "fl x =
     (if x = 0 then 0
      else let a = \<bar>x\<bar>; u = pow2 (binary_exponent a - 52)
           in sgn x * (of_int (round_half_even (a / u)) * u))"

text \<open>
  Python's \<^verbatim>\<open>round(x, 2)\<close> on a float: the exact value of \<open>x\<close> is rounded to the
  nearest hundredth, a tie going to the even neighbour (\<open>round2\<close>), and the result is the
  double nearest to that decimal.
\<close>

definition round2 :: "rat \<Rightarrow> rat" where
  "round2 x = of_int (round_half_even (x * 100)) / 100"

definition py_round2 :: "rat \<Rightarrow> rat" where
  "py_round2 x = fl (round2 x)"

datatype reason =
    NoCodeProvided
  | NotFound
  | Inactive
  | Expired
  | InvalidExpiryData
  | UnexpectedError
  | UsageLimitReached
  | UnknownDiscountType

record details =
  details_code :: string
  details_type :: string
  details_value :: money
  discount_amount :: money
  final_total :: money

datatype validation = Invalid reason | Valid details

text \<open>
  The amount computed once every rule has passed (lines 755 to 776), in the float
  arithmetic of the source: \<^verbatim>\<open>float(current_total)\<close>,
  \<^verbatim>\<open>(current_total_float * value) / 100.0\<close>, \<^verbatim>\<open>min\<close>,
  \<^verbatim>\<open>max(0.0, current_total_float - discount_amount)\<close> and the two \<^verbatim>\<open>round(_, 2)\<close>.
\<close>

definition compute_discount :: "discount_code \<Rightarrow> money \<Rightarrow> validation" where
  "compute_discount code_data current_total =
     (let dtype = discount_type code_data; v = value_d code_data;
          current_total_float = fl current_total
      in if dtype \<noteq> ''percentage'' \<and> dtype \<noteq> ''fixed'' then Invalid UnknownDiscountType
         else
           let amount0 = (if dtype = ''percentage'' then fl (fl (current_total_float * v) / 100)
                          else fl v);
               amount1 = min amount0 current_total_float;
               total1 = max 0 (fl (current_total_float - amount1))
           in Valid \<lparr>details_code = code code_data, details_type = dtype, details_value = v,
                     discount_amount = py_round2 amount1, final_total = py_round2 total1\<rparr>)"

text \<open>
  \<open>now\<close> is \<^verbatim>\<open>datetime.now()\<close>. An expiry with a UTC offset makes the comparison of
  line 747 raise \<^verbatim>\<open>TypeError\<close>, which only the handler of lines 787 to 789 catches:
  the answer is the unexpected error. The table is only read: the function returns a
  verdict and no table.
\<close>

definition validate_discount_code ::
  "discount_code list \<Rightarrow> timestamp \<Rightarrow> string \<Rightarrow> money \<Rightarrow> validation" where
  "validate_discount_code codes now code_text current_total =
     (if code_text = [] then Invalid NoCodeProvided
      else case find (\<lambda>c. code c = code_text) codes of
        None \<Rightarrow> Invalid NotFound
      | Some code_data \<Rightarrow>
          if \<not> is_active code_data then Invalid Inactive
          else if expiry_date code_data = Some Unparseable then Invalid InvalidExpiryData
          else if (case expiry_date code_data of Some (ExpiresAtOffset e) \<Rightarrow> True | _ \<Rightarrow> False)
            then Invalid UnexpectedError
          else if (case expiry_date code_data of Some (ExpiresAt e) \<Rightarrow> e < now | _ \<Rightarrow> False)
            then Invalid Expired
          else if (case max_uses code_data of Some m \<Rightarrow> m \<le> uses_count code_data | None \<Rightarrow> False)
            then Invalid UsageLimitReached
          else compute_discount code_data current_total)"

section \<open>Table access\<close>

definition find_user :: "nat \<Rightarrow> user_row list \<Rightarrow> user_row option" where
  "find_user uid us = find (\<lambda>u. user_id u = uid) us"

definition find_product :: "nat \<Rightarrow> product list \<Rightarrow> product option" where
  "find_product pid ps = find (\<lambda>p. product_id p = pid) ps"

text \<open>\<^verbatim>\<open>UPDATE users SET ... WHERE user_id = ?\<close> and \<^verbatim>\<open>UPDATE products SET ... WHERE id = ?\<close>.\<close>

definition update_user :: "nat \<Rightarrow> (user_row \<Rightarrow> user_row) \<Rightarrow> user_row list \<Rightarrow> user_row list" where
  "update_user uid f us = map (\<lambda>u. if user_id u = uid then f u else u) us"

definition update_product :: "nat \<Rightarrow> (product \<Rightarrow> product) \<Rightarrow> product list \<Rightarrow> product list" where
  "update_product pid f ps = map (\<lambda>p. if product_id p = pid then f p else p) ps"

text \<open>The number of rows a statement with this WHERE clause touches (\<^verbatim>\<open>cursor.rowcount\<close>).\<close>

definition rowcount :: "('a \<Rightarrow> bool) \<Rightarrow> 'a list \<Rightarrow> nat" where
  "rowcount P rows = length (filter P rows)"

text \<open>\<^verbatim>\<open>UPDATE products SET reserved = MAX(0, reserved - ?) WHERE id = ?\<close>\<close>

definition release :: "int \<Rightarrow> nat \<Rightarrow> product list \<Rightarrow> product list" where
  "release n pid ps = update_product pid (\<lambda>p. p\<lparr>reserved := max 0 (reserved p - n)\<rparr>) ps"

text \<open>
  A \<^verbatim>\<open>Counter\<close> of product ids as its list of (id, count) items, and the
  \<^verbatim>\<open>executemany\<close> of the release statement over these items. The items have distinct
  ids, so the statements touch different rows and their order does not matter.
\<close>

definition counter :: "nat list \<Rightarrow> (nat \<times> int) list" where
  "counter ids = map (\<lambda>pid. (pid, int (count_list ids pid))) (remdups ids)"

definition release_all :: "(nat \<times> int) list \<Rightarrow> product list \<Rightarrow> product list" where
  "release_all decrement_data ps = fold (\<lambda>(pid, n). release n pid) decrement_data ps"

section \<open>Expiry sweeper (\<^verbatim>\<open>utils.clear_expired_basket\<close>, \<^verbatim>\<open>utils.clear_all_expired_baskets\<close>)\<close>

text \<open>
  \<open>basket_timeout\<close> is the module constant \<^verbatim>\<open>BASKET_TIMEOUT\<close> (seconds, from the
  environment, 900 by default); \<open>current_time\<close> is \<^verbatim>\<open>time.time()\<close>. The loop over the
  pieces keeps a piece when \<^verbatim>\<open>current_time - timestamp <= BASKET_TIMEOUT\<close>, counts it as
  expired otherwise, and only logs a malformed piece.
\<close>

fun valid_items_str_list :: "rat \<Rightarrow> timestamp \<Rightarrow> basket_piece list \<Rightarrow> basket_piece list" where
  "valid_items_str_list basket_timeout current_time [] = []"
| "valid_items_str_list basket_timeout current_time (Hold pid ts # items) =
     (if current_time - ts \<le> basket_timeout
      then Hold pid ts # valid_items_str_list basket_timeout current_time items
      else valid_items_str_list basket_timeout current_time items)"
| "valid_items_str_list basket_timeout current_time (Malformed s # items) =
     valid_items_str_list basket_timeout current_time items"

fun expired_product_ids :: "rat \<Rightarrow> timestamp \<Rightarrow> basket_piece list \<Rightarrow> nat list" where
  "expired_product_ids basket_timeout current_time [] = []"
| "expired_product_ids basket_timeout current_time (Hold pid ts # items) =
     (if current_time - ts \<le> basket_timeout
      then expired_product_ids basket_timeout current_time items
      else pid # expired_product_ids basket_timeout current_time items)"
| "expired_product_ids basket_timeout current_time (Malformed s # items) =
     expired_product_ids basket_timeout current_time items"

text \<open>The session copy of the kept holds: only those whose lot still has a row (a price).\<close>

fun valid_items_userdata_list :: "product list \<Rightarrow> basket_piece list \<Rightarrow> basket_item list" where
  "valid_items_userdata_list ps [] = []"
| "valid_items_userdata_list ps (Hold pid ts # items) =
     (case find_product pid ps of
        Some p \<Rightarrow> \<lparr>item_product_id = pid, item_price = price p, item_timestamp = ts\<rparr>
                   # valid_items_userdata_list ps items
      | None \<Rightarrow> valid_items_userdata_list ps items)"
| "valid_items_userdata_list ps (Malformed s # items) = valid_items_userdata_list ps items"

definition clear_expired_basket ::
  "rat \<Rightarrow> timestamp \<Rightarrow> nat \<Rightarrow> session \<times> db \<Rightarrow> session \<times> db" where
  "clear_expired_basket basket_timeout current_time uid sd =
     (let s = fst sd; d = snd sd;
          basket_str = (case find_user uid (users d) of Some u \<Rightarrow> basket u | None \<Rightarrow> [])
      in if basket_str = [] then (s\<lparr>basket_ctx := [], applied_discount := None\<rparr>, d)
         else
           let valid = valid_items_str_list basket_timeout current_time basket_str;
               userdata = valid_items_userdata_list (products d) valid;
               expired = expired_product_ids basket_timeout current_time basket_str;
               d' = (if expired = [] then d
                     else d\<lparr>users := update_user uid (\<lambda>u. u\<lparr>basket := valid\<rparr>) (users d),
                            products := release_all (counter expired) (products d)\<rparr>)
           in (s\<lparr>basket_ctx := userdata,
                 applied_discount := (if userdata = [] then None else applied_discount s)\<rparr>, d'))"

text \<open>
  The scheduled job: every user row with a non-empty basket is partitioned in the same
  way; the baskets of the users that had an expired piece are rewritten and all
  releases are issued together, in one transaction.
\<close>

definition sweep_user_row :: "rat \<Rightarrow> timestamp \<Rightarrow> user_row \<Rightarrow> user_row" where
  "sweep_user_row basket_timeout current_time u =
     (if basket u \<noteq> [] \<and> expired_product_ids basket_timeout current_time (basket u) \<noteq> []
      then u\<lparr>basket := valid_items_str_list basket_timeout current_time (basket u)\<rparr> else u)"

definition all_expired_product_ids :: "rat \<Rightarrow> timestamp \<Rightarrow> user_row list \<Rightarrow> nat list" where
  "all_expired_product_ids basket_timeout current_time us =
     concat (map (\<lambda>u. expired_product_ids basket_timeout current_time (basket u)) us)"

definition clear_all_expired_baskets :: "rat \<Rightarrow> timestamp \<Rightarrow> db \<Rightarrow> db" where
  "clear_all_expired_baskets basket_timeout current_time d =
     d\<lparr>users := map (sweep_user_row basket_timeout current_time) (users d),
       products := release_all
          (counter (all_expired_product_ids basket_timeout current_time (users d))) (products d)\<rparr>"

section \<open>Basket manager (\<^verbatim>\<open>user.py\<close>)\<close>

datatype add_result = Reserved nat | OutOfStock

text \<open>
  The query of \<^verbatim>\<open>handle_add_to_basket\<close>: the rows of the chosen city, district, type,
  size and price with \<^verbatim>\<open>available > reserved\<close>, \<^verbatim>\<open>ORDER BY id LIMIT 1\<close>. The handler
  is modelled from the point where the callback parameters have been parsed and the city
  and district names looked up (lines 544 to 643).
\<close>

definition free_lots ::
  "string \<Rightarrow> string \<Rightarrow> string \<Rightarrow> string \<Rightarrow> money \<Rightarrow> product list \<Rightarrow> product list" where
  "free_lots c_name d_name p_type sz pr ps =
     filter (\<lambda>p. city p = c_name \<and> district p = d_name \<and> product_type p = p_type \<and> size_p p = sz
                 \<and> price p = pr \<and> reserved p < available p) ps"

fun first_by_id :: "product list \<Rightarrow> product option" where
  "first_by_id [] = None"
| "first_by_id (p # ps) =
     (case first_by_id ps of
        None \<Rightarrow> Some p
      | Some q \<Rightarrow> if product_id p \<le> product_id q then Some p else Some q)"

text \<open>
  After the commit the handler recomputes the displayed total from the session basket
  and refreshes the amounts of an applied discount that is still valid.
\<close>

definition refresh_applied ::
  "discount_code list \<Rightarrow> timestamp \<Rightarrow> money \<Rightarrow> applied option \<Rightarrow> applied option" where
  "refresh_applied codes now original_total ad =
     (case ad of
        None \<Rightarrow> None
      | Some a \<Rightarrow>
          (case validate_discount_code codes now (applied_code a) original_total of
             Valid dt \<Rightarrow> Some (a\<lparr>applied_amount := discount_amount dt,
                                  applied_final_total := final_total dt\<rparr>)
           | Invalid r \<Rightarrow> Some a))"

definition handle_add_to_basket ::
  "timestamp \<Rightarrow> nat \<Rightarrow> string \<Rightarrow> string \<Rightarrow> string \<Rightarrow> string \<Rightarrow> money \<Rightarrow> session \<times> db
     \<Rightarrow> add_result \<times> session \<times> db" where
  "handle_add_to_basket now uid c_name d_name p_type sz pr sd =
     (let s = fst sd; d = snd sd
      in case first_by_id (free_lots c_name d_name p_type sz pr (products d)) of
           None \<Rightarrow> (OutOfStock, s, d)
         | Some product_row \<Rightarrow>
             let product_id_reserved = product_id product_row;
                 d' = d\<lparr>users := update_user uid
                              (\<lambda>u. u\<lparr>basket := basket u @ [Hold product_id_reserved now]\<rparr>) (users d),
                        products := update_product product_id_reserved
                              (\<lambda>p. p\<lparr>reserved := reserved p + 1\<rparr>) (products d)\<rparr>;
                 current_basket_list = basket_ctx s
                    @ [\<lparr>item_product_id = product_id_reserved, item_price = pr, item_timestamp = now\<rparr>];
                 original_total = sum_list (map item_price current_basket_list)
             in (Reserved product_id_reserved,
                 s\<lparr>basket_ctx := current_basket_list,
                   applied_discount :=
                     refresh_applied (discount_codes d') now original_total (applied_discount s)\<rparr>,
                 d'))"

text \<open>
  \<^verbatim>\<open>handle_remove_from_basket\<close> up to its database commit and session update (lines
  1102 to 1215): the first session item of the lot decides everything. Only when there is
  one, the reservation is released and the piece built from that item's timestamp is
  removed from the stored basket, if it is there.
\<close>

definition revalidate_after_removal ::
  "discount_code list \<Rightarrow> timestamp \<Rightarrow> basket_item list \<Rightarrow> applied option \<Rightarrow> applied option" where
  "revalidate_after_removal codes now new_basket ad =
     (if new_basket = [] then None
      else case ad of
        None \<Rightarrow> None
      | Some a \<Rightarrow>
          (case validate_discount_code codes now (applied_code a)
                  (sum_list (map item_price new_basket)) of
             Valid dt \<Rightarrow> Some a
           | Invalid r \<Rightarrow> None))"

definition remove_from_basket_tx :: "timestamp \<Rightarrow> nat \<Rightarrow> nat \<Rightarrow> session \<times> db \<Rightarrow> session \<times> db" where
  "remove_from_basket_tx now uid product_id_to_remove sd =
     (let s = fst sd; d = snd sd
      in case find (\<lambda>item. item_product_id item = product_id_to_remove) (basket_ctx s) of
           None \<Rightarrow>
             (s\<lparr>applied_discount :=
                  revalidate_after_removal (discount_codes d) now (basket_ctx s) (applied_discount s)\<rparr>, d)
         | Some item \<Rightarrow>
             let new_basket_context = remove1 item (basket_ctx s);
                 item_to_remove_str = Hold (item_product_id item) (item_timestamp item);
                 db_basket_str = (case find_user uid (users d) of Some u \<Rightarrow> basket u | None \<Rightarrow> []);
                 us' = (if db_basket_str \<noteq> [] \<and> item_to_remove_str \<in> set db_basket_str
                        then update_user uid (\<lambda>u. u\<lparr>basket := remove1 item_to_remove_str db_basket_str\<rparr>)
                               (users d)
                        else users d);
                 d' = d\<lparr>users := us', products := release 1 product_id_to_remove (products d)\<rparr>
             in (s\<lparr>basket_ctx := new_basket_context,
                   applied_discount :=
                     revalidate_after_removal (discount_codes d') now new_basket_context
                       (applied_discount s)\<rparr>, d'))"

text \<open>
  The state effects of \<^verbatim>\<open>handle_view_basket\<close>: the lazy sweep, then the applied discount
  is dropped with an empty basket and revalidated against the live subtotal otherwise.
\<close>

definition handle_view_basket :: "rat \<Rightarrow> timestamp \<Rightarrow> nat \<Rightarrow> session \<times> db \<Rightarrow> session \<times> db" where
  "handle_view_basket basket_timeout now uid sd =
     (let sd1 = clear_expired_basket basket_timeout now uid sd; s = fst sd1; d = snd sd1
      in if basket_ctx s = [] then (s\<lparr>applied_discount := None\<rparr>, d)
         else
           let shown = filter (\<lambda>item. find_product (item_product_id item) (products d) \<noteq> None)
                         (basket_ctx s);
               original_total = sum_list
                 (map (\<lambda>item. case find_product (item_product_id item) (products d) of
                                  Some p \<Rightarrow> price p | None \<Rightarrow> 0) shown)
           in if shown = [] then (s\<lparr>basket_ctx := [], applied_discount := None\<rparr>, d)
              else case applied_discount s of
                None \<Rightarrow> (s, d)
              | Some a \<Rightarrow>
                  (case validate_discount_code (discount_codes d) now (applied_code a) original_total of
                     Valid dt \<Rightarrow>
                       (s\<lparr>applied_discount := Some \<lparr>applied_code = applied_code a,
                            applied_amount = discount_amount dt,
                            applied_final_total = final_total dt\<rparr>\<rparr>, d)
                   | Invalid r \<Rightarrow> (s\<lparr>applied_discount := None\<rparr>, d)))"

text \<open>The whole handler: the removal, then the refreshed basket view.\<close>

definition handle_remove_from_basket ::
  "rat \<Rightarrow> timestamp \<Rightarrow> nat \<Rightarrow> nat \<Rightarrow> session \<times> db \<Rightarrow> session \<times> db" where
  "handle_remove_from_basket basket_timeout now uid product_id_to_remove sd =
     handle_view_basket basket_timeout now uid (remove_from_basket_tx now uid product_id_to_remove sd)"

text \<open>
  \<^verbatim>\<open>handle_clear_basket\<close>: with an empty session basket only the view is refreshed;
  otherwise the stored basket is emptied and one release is issued per session item.
\<close>

definition handle_clear_basket :: "rat \<Rightarrow> timestamp \<Rightarrow> nat \<Rightarrow> session \<times> db \<Rightarrow> session \<times> db" where
  "handle_clear_basket basket_timeout now uid sd =
     (let s = fst sd; d = snd sd
      in if basket_ctx s = [] then handle_view_basket basket_timeout now uid sd
         else (s\<lparr>basket_ctx := [], applied_discount := None\<rparr>,
               d\<lparr>users := update_user uid (\<lambda>u. u\<lparr>basket := []\<rparr>) (users d),
                 products := release_all (counter (map item_product_id (basket_ctx s))) (products d)\<rparr>))"

section \<open>Balance settlement (\<^verbatim>\<open>payment.process_purchase_with_balance\<close>)\<close>

datatype failure =
    EmptySnapshot
  | InvalidAmount
  | InsufficientBalance
  | DeductFailed
  | NothingSettleable

text \<open>An entry of \<^verbatim>\<open>sold_out_during_process\<close>: the lines reported as unavailable.\<close>

datatype sold_out_note = ItemUnavailable nat | ItemSoldOut string string

record loop_state =
  loop_products :: "product list"
  purchases_to_insert :: "purchase list"
  processed_product_ids :: "nat list"
  sold_out_during_process :: "sold_out_note list"

text \<open>
  One pass of the loop over the snapshot (lines 643 to 657). \<open>product_db_details\<close> are
  the rows read before the loop; the statements act on the rows as the loop has left
  them.
\<close>

definition settle_item ::
  "timestamp \<Rightarrow> nat \<Rightarrow> product list \<Rightarrow> loop_state \<Rightarrow> basket_item \<Rightarrow> loop_state" where
  "settle_item purchase_time uid product_db_details st item_snapshot =
     (let pid = item_product_id item_snapshot
      in case find_product pid product_db_details of
           None \<Rightarrow>
             st\<lparr>sold_out_during_process := sold_out_during_process st @ [ItemUnavailable pid]\<rparr>
         | Some details \<Rightarrow>
             let note = ItemSoldOut (name_p details) (size_p details);
                 ps1 = release 1 pid (loop_products st)
             in if rowcount (\<lambda>p. product_id p = pid) (loop_products st) = 0
                then st\<lparr>sold_out_during_process := sold_out_during_process st @ [note]\<rparr>
                else if rowcount (\<lambda>p. product_id p = pid \<and> 0 < available p) ps1 = 0
                then st\<lparr>loop_products :=
                          update_product pid (\<lambda>p. p\<lparr>reserved := reserved p + 1\<rparr>) ps1,
                        sold_out_during_process := sold_out_during_process st @ [note]\<rparr>
                else st\<lparr>loop_products :=
                          map (\<lambda>p. if product_id p = pid \<and> 0 < available p
                                    then p\<lparr>available := available p - 1\<rparr> else p) ps1,
                        purchases_to_insert := purchases_to_insert st @
                          [\<lparr>buyer_id = uid, sold_product_id = Some pid,
                            product_name = name_p details,
                            sold_product_type = product_type details,
                            product_size = size_p details, price_paid = price details,
                            sold_city = city details, sold_district = district details,
                            purchase_date = purchase_time\<rparr>],
                        processed_product_ids := processed_product_ids st @ [pid]\<rparr>)"

definition settle_loop ::
  "timestamp \<Rightarrow> nat \<Rightarrow> product list \<Rightarrow> basket_item list \<Rightarrow> loop_state" where
  "settle_loop purchase_time uid ps basket_snapshot =
     foldl (settle_item purchase_time uid ps)
       \<lparr>loop_products = ps, purchases_to_insert = [], processed_product_ids = [],
        sold_out_during_process = []\<rparr> basket_snapshot"

text \<open>
  The transaction (lines 620 to 668). A rollback leaves the store as it was, so only a
  commit carries a store: the one every other connection sees from line 668 on. The
  amount is the double \<^verbatim>\<open>amount_float_to_deduct\<close> of line 613, with which the balance is
  compared and from which it is subtracted by SQLite, in doubles.
\<close>

datatype settle_outcome =
    RolledBack failure
  | Committed db "nat list" "sold_out_note list"

definition settle_transaction ::
  "timestamp \<Rightarrow> nat \<Rightarrow> money \<Rightarrow> basket_item list \<Rightarrow> string option \<Rightarrow> db \<Rightarrow> settle_outcome" where
  "settle_transaction purchase_time uid amount_to_deduct basket_snapshot discount_code_used d =
     (if basket_snapshot = [] then RolledBack EmptySnapshot
      else if amount_to_deduct < 0 then RolledBack InvalidAmount
      else case find_user uid (users d) of
        None \<Rightarrow> RolledBack InsufficientBalance
      | Some u \<Rightarrow>
          if balance u < amount_to_deduct then RolledBack InsufficientBalance
          else if rowcount (\<lambda>r. user_id r = uid) (users d) = 0 then RolledBack DeductFailed
          else
            let us1 = update_user uid (\<lambda>r. r\<lparr>balance := fl (balance r - amount_to_deduct)\<rparr>)
                        (users d);
                st = settle_loop purchase_time uid (products d) basket_snapshot
            in if purchases_to_insert st = [] then RolledBack NothingSettleable
               else Committed
                 (d\<lparr>users := update_user uid
                        (\<lambda>r. r\<lparr>total_purchases :=
                                  total_purchases r + int (length (purchases_to_insert st)),
                               basket := []\<rparr>) us1,
                    products := loop_products st,
                    purchases := purchases d @ purchases_to_insert st,
                    discount_codes :=
                      (case discount_code_used of
                         None \<Rightarrow> discount_codes d
                       | Some c \<Rightarrow>
                           if c = [] then discount_codes d
                           else map (\<lambda>r. if code r = c then r\<lparr>uses_count := uses_count r + 1\<rparr> else r)
                                  (discount_codes d))\<rparr>)
                 (processed_product_ids st) (sold_out_during_process st))"

text \<open>
  After the commit, for each processed lot in turn and in a transaction of its own (lines
  728 to 751): \<^verbatim>\<open>DELETE FROM products WHERE id = ?\<close>, which also clears the reference of the
  sale log.
\<close>

definition delete_product :: "nat \<Rightarrow> db \<Rightarrow> db" where
  "delete_product pid d =
     d\<lparr>products := filter (\<lambda>p. product_id p \<noteq> pid) (products d),
       purchases := map (\<lambda>r. if sold_product_id r = Some pid then r\<lparr>sold_product_id := None\<rparr> else r)
                      (purchases d)\<rparr>"

datatype purchase_result =
    PurchaseFailed failure
  | PurchaseDone "nat list" "sold_out_note list"

definition process_purchase_with_balance ::
  "timestamp \<Rightarrow> nat \<Rightarrow> money \<Rightarrow> basket_item list \<Rightarrow> string option \<Rightarrow> session \<times> db
     \<Rightarrow> purchase_result \<times> session \<times> db" where
  "process_purchase_with_balance purchase_time uid amount_to_deduct basket_snapshot
       discount_code_used sd =
     (case settle_transaction purchase_time uid amount_to_deduct basket_snapshot
             discount_code_used (snd sd) of
        RolledBack f \<Rightarrow> (PurchaseFailed f, fst sd, snd sd)
      | Committed d1 processed sold_out \<Rightarrow>
          (PurchaseDone processed sold_out,
           (fst sd)\<lparr>basket_ctx := [], applied_discount := None\<rparr>,
           fold delete_product processed d1))"

text \<open>
  \<^verbatim>\<open>handle_confirm_pay\<close> up to the comparison with the balance: the lazy sweep, the
  snapshot of the session items whose lot still has a row, the subtotal at the stored
  prices and the total after the applied discount, if it is still valid.
\<close>

datatype checkout =
    BasketEmpty
  | AllUnavailable
  | NegativeTotal
  | Proceed money "basket_item list" "string option"

definition confirm_pay_total ::
  "rat \<Rightarrow> timestamp \<Rightarrow> nat \<Rightarrow> session \<times> db \<Rightarrow> checkout \<times> session \<times> db" where
  "confirm_pay_total basket_timeout now uid sd =
     (let sd1 = clear_expired_basket basket_timeout now uid sd; s = fst sd1; d = snd sd1
      in if basket_ctx s = [] then (BasketEmpty, handle_view_basket basket_timeout now uid sd1)
         else
           let snapshot = filter (\<lambda>item. find_product (item_product_id item) (products d) \<noteq> None)
                            (basket_ctx s);
               original_total = sum_list
                 (map (\<lambda>item. case find_product (item_product_id item) (products d) of
                                  Some p \<Rightarrow> price p | None \<Rightarrow> 0) snapshot)
           in if snapshot = [] then (AllUnavailable, s\<lparr>basket_ctx := [], applied_discount := None\<rparr>, d)
              else
                let priced =
                  (case applied_discount s of
                     None \<Rightarrow> (original_total, None, s)
                   | Some a \<Rightarrow>
                       (case validate_discount_code (discount_codes d) now (applied_code a)
                               original_total of
                          Valid dt \<Rightarrow>
                            (final_total dt, Some (applied_code a),
                             s\<lparr>applied_discount := Some (a\<lparr>applied_final_total := final_total dt,
                                                           applied_amount := discount_amount dt\<rparr>)\<rparr>)
                        | Invalid r \<Rightarrow> (original_total, None, s\<lparr>applied_discount := None\<rparr>)))
                in if fst priced < 0 then (NegativeTotal, snd (snd priced), d)
                   else (Proceed (fst priced) snapshot (fst (snd priced)), snd (snd priced), d))"

datatype pay_result =
    NotStarted checkout
  | InsufficientFunds money money
  | Paid purchase_result

definition handle_confirm_pay ::
  "rat \<Rightarrow> timestamp \<Rightarrow> nat \<Rightarrow> session \<times> db \<Rightarrow> pay_result \<times> session \<times> db" where
  "handle_confirm_pay basket_timeout now uid sd =
     (case confirm_pay_total basket_timeout now uid sd of
        (Proceed amount snapshot discount_code_to_use, s, d) \<Rightarrow>
          let user_balance = (case find_user uid (users d) of Some u \<Rightarrow> balance u | None \<Rightarrow> 0)
          in if amount \<le> user_balance
             then (case process_purchase_with_balance now uid amount snapshot discount_code_to_use (s, d) of
                     (PurchaseDone processed sold_out, sd') \<Rightarrow> (Paid (PurchaseDone processed sold_out), sd')
                   | (PurchaseFailed f, sd') \<Rightarrow>
                       (Paid (PurchaseFailed f), handle_view_basket basket_timeout now uid sd'))
             else (InsufficientFunds amount user_balance, s, d)
      | (other, s, d) \<Rightarrow> (NotStarted other, s, d))"

section \<open>Top-up settlement (\<^verbatim>\<open>payment.py\<close>)\<close>

text \<open>
  \<^verbatim>\<open>process_successful_refill\<close>: the credit is keyed by the user only; the invoice id is
  logged and nothing else. The amount is the double \<^verbatim>\<open>amount_float\<close> of line 541,
  which SQLite adds to the balance in doubles. The result is the returned flag and the
  store.
\<close>

definition process_successful_refill :: "nat \<Rightarrow> money \<Rightarrow> int \<Rightarrow> db \<Rightarrow> bool \<times> db" where
  "process_successful_refill uid amount_to_add invoice d =
     (if amount_to_add \<le> 0 then (False, d)
      else if rowcount (\<lambda>r. user_id r = uid) (users d) = 0 then (False, d)
      else (True, d\<lparr>users := update_user uid (\<lambda>r. r\<lparr>balance := fl (balance r + amount_to_add)\<rparr>)
                               (users d)\<rparr>))"

text \<open>
  What the payment gateway answers to \<^verbatim>\<open>get_invoices\<close>: an error, no invoice, or an
  invoice with its status and, possibly, the fiat amount paid.
\<close>

datatype invoice_status = StatusPaid | StatusExpired | StatusActive | StatusOther

datatype gateway_reply =
    GatewayError
  | NoInvoice
  | Invoice invoice_status "money option"

text \<open>
  \<^verbatim>\<open>handle_check_cryptobot_payment\<close> in its two parts. \<open>check_read\<close> is what the handler
  reads from the session when it starts (lines 429 to 431): the pending invoice, kept in
  a local variable together with the flag \<open>is_current_payment\<close> computed from it. The
  handler then awaits the answer to the callback and the gateway (lines 449 to 455), and
  \<open>check_resume\<close> is what it does with the reply (lines 457 to 518), deciding by the
  local variables and acting on the session and the store as they are by then. A paid
  invoice is credited only if it was the pending invoice when the handler started, and a
  successful credit drops the pending invoice. The purchase branch calls
  \<^verbatim>\<open>process_successful_cryptobot_purchase\<close>, which changes nothing and returns False.
\<close>

definition check_read :: "session \<Rightarrow> pending option" where
  "check_read s = pending_payment s"

definition check_resume ::
  "nat \<Rightarrow> int \<Rightarrow> pending option \<Rightarrow> gateway_reply \<Rightarrow> session \<times> db \<Rightarrow> session \<times> db" where
  "check_resume uid invoice_id_to_check pending_local reply sd =
     (let s = fst sd; d = snd sd;
          is_current_payment =
            (case pending_local of
               None \<Rightarrow> False | Some pp \<Rightarrow> invoice_id pp = invoice_id_to_check);
          popped = s\<lparr>pending_payment := None\<rparr>
      in case reply of
           GatewayError \<Rightarrow> (s, d)
         | NoInvoice \<Rightarrow> (s, d)
         | Invoice status fiat_paid_raw \<Rightarrow>
             (case status of
                StatusPaid \<Rightarrow>
                  (case pending_local of
                     None \<Rightarrow> (s, d)
                   | Some pp \<Rightarrow>
                       if \<not> is_current_payment then (s, d)
                       else if payment_type pp = ''refill'' then
                         let amount_to_add =
                               (case fiat_paid_raw of Some a \<Rightarrow> a | None \<Rightarrow> fiat_total pp)
                         in if amount_to_add \<le> 0 then (popped, d)
                            else (case process_successful_refill uid amount_to_add
                                         invoice_id_to_check d of
                                    (True, d') \<Rightarrow> (popped, d')
                                  | (False, d') \<Rightarrow> (s, d'))
                       else if payment_type pp = ''purchase'' then (s, d)
                       else (popped, d))
              | StatusExpired \<Rightarrow> (if is_current_payment then popped else s, d)
              | StatusActive \<Rightarrow> (s, d)
              | StatusOther \<Rightarrow> (if is_current_payment then popped else s, d)))"

text \<open>One run of the handler with nothing in between its two parts.\<close>

definition handle_check_cryptobot_payment ::
  "nat \<Rightarrow> int \<Rightarrow> gateway_reply \<Rightarrow> session \<times> db \<Rightarrow> session \<times> db" where
  "handle_check_cryptobot_payment uid invoice_id_to_check reply sd =
     check_resume uid invoice_id_to_check (check_read (fst sd)) reply sd"

section \<open>Predicates for the statements\<close>

text \<open>
  For stating what the sweeps do: a piece that is a hold within its time to live, a
  piece that is a hold on a given lot past its time to live, and a row after \<open>n\<close>
  releases issued in one statement.
\<close>

definition hold_kept :: "rat \<Rightarrow> timestamp \<Rightarrow> basket_piece \<Rightarrow> bool" where
  "hold_kept basket_timeout current_time piece =
     (case piece of Hold pid ts \<Rightarrow> current_time - ts \<le> basket_timeout | Malformed s \<Rightarrow> False)"

definition hold_expired :: "rat \<Rightarrow> timestamp \<Rightarrow> nat \<Rightarrow> basket_piece \<Rightarrow> bool" where
  "hold_expired basket_timeout current_time pid piece =
     (case piece of Hold q ts \<Rightarrow> q = pid \<and> basket_timeout < current_time - ts
      | Malformed s \<Rightarrow> False)"

definition released_by :: "nat \<Rightarrow> product \<Rightarrow> product" where
  "released_by n p = (if n = 0 then p else p\<lparr>reserved := max 0 (reserved p - int n)\<rparr>)"

text \<open>
  The stock invariant of a store and of a list of rows; the stock as triples of lot id,
  available and reserved; the store of a committed settlement; and the relation between a
  row before the settlement loop and the same row once the lots \<open>processed\<close> are sold.
\<close>

definition reserved_within_available :: "db \<Rightarrow> bool" where
  "reserved_within_available d = list_all (\<lambda>p. 0 \<le> reserved p \<and> reserved p \<le> available p) (products d)"

definition rows_ok :: "product list \<Rightarrow> bool" where
  "rows_ok ps = list_all (\<lambda>p. 0 \<le> reserved p \<and> reserved p \<le> available p) ps"

definition stock :: "db \<Rightarrow> (nat \<times> int \<times> int) list" where
  "stock d = map (\<lambda>p. (product_id p, available p, reserved p)) (products d)"

definition committed_store :: "settle_outcome \<Rightarrow> db option" where
  "committed_store outcome = (case outcome of Committed d1 processed sold_out \<Rightarrow> Some d1
                               | RolledBack f \<Rightarrow> None)"

definition sold_so_far :: "nat list \<Rightarrow> product \<Rightarrow> product \<Rightarrow> bool" where
  "sold_so_far processed p q \<longleftrightarrow>
     product_id q = product_id p \<and>
     available q = available p - int (count_list processed (product_id p))"

section \<open>Concrete scenarios\<close>

definition save10 :: discount_code where
  "save10 = \<lparr>code = ''SAVE10'', discount_type = ''percentage'', value_d = 10, is_active = True,
     max_uses = None, uses_count = 0, expiry_date = None\<rparr>"

definition once_used :: discount_code where
  "once_used = \<lparr>code = ''ONCE'', discount_type = ''fixed'', value_d = 5, is_active = True,
     max_uses = Some 1, uses_count = 1, expiry_date = None\<rparr>"

definition offset_expiry :: discount_code where
  "offset_expiry = \<lparr>code = ''OFFSET'', discount_type = ''fixed'', value_d = 5, is_active = True,
     max_uses = Some 1, uses_count = 1, expiry_date = Some (ExpiresAtOffset 100)\<rparr>"

definition bad_expiry :: discount_code where
  "bad_expiry = \<lparr>code = ''BADEXP'', discount_type = ''fixed'', value_d = 5, is_active = True,
     max_uses = Some 1, uses_count = 1, expiry_date = Some Unparseable\<rparr>"

text \<open>Rows for the concrete scenarios: a lot at 10.00, a shopper, a store.\<close>

definition lot :: "nat \<Rightarrow> int \<Rightarrow> int \<Rightarrow> product" where
  "lot pid a r = \<lparr>product_id = pid, city = ''Vilnius'', district = ''Centras'',
     product_type = ''kava'', size_p = ''2g'', name_p = ''kava 2g'', price = 10,
     available = a, reserved = r, original_text = None\<rparr>"

definition shopper :: "nat \<Rightarrow> money \<Rightarrow> basket_piece list \<Rightarrow> user_row" where
  "shopper uid b pieces = \<lparr>user_id = uid, balance = b, total_purchases = 0, basket = pieces\<rparr>"

definition store :: "user_row list \<Rightarrow> product list \<Rightarrow> db" where
  "store us ps = \<lparr>users = us, products = ps, purchases = [], discount_codes = []\<rparr>"

definition add_lot :: "timestamp \<Rightarrow> nat \<Rightarrow> session \<times> db \<Rightarrow> add_result \<times> session \<times> db" where
  "add_lot now uid sd = handle_add_to_basket now uid ''Vilnius'' ''Centras'' ''kava'' ''2g'' 10 sd"

text \<open>
  One lot and one shopper: \<open>sd_held\<close> after the shopper has added the lot at time 0,
  \<open>sd_swept\<close> after the scheduled job has then run at time 901 (the session still shows
  the item), and \<open>sd_two_holds\<close> with one hold exactly at the timeout and one past it
  at time 1000.
\<close>

definition sd0 :: "session \<times> db" where
  "sd0 = (fresh_session, store [shopper 7 50 []] [lot 1 1 0])"

definition sd_held :: "session \<times> db" where
  "sd_held = snd (add_lot 0 7 sd0)"

definition sd_swept :: "session \<times> db" where
  "sd_swept = (fst sd_held, clear_all_expired_baskets 900 901 (snd sd_held))"

definition sd_older_hold :: "session \<times> db" where
  "sd_older_hold = (fresh_session, store [shopper 7 50 [Hold 2 0]] [lot 1 1 0, lot 2 1 1])"

definition sd_two_holds :: "session \<times> db" where
  "sd_two_holds = (fresh_session,
     store [shopper 7 50 [Hold 1 100, Hold 2 99]] [lot 1 1 1, lot 2 1 1])"

text \<open>
  Settlement scenarios: a snapshot line, a sale record and stores with one shopper.
  In \<open>store_race\<close> lot 2 has lost its row since the checkout began; in \<open>store_gone\<close>
  lot 1 is moreover sold out; \<open>store_one\<close> holds one reserved lot.
\<close>

definition line_of :: "nat \<Rightarrow> timestamp \<Rightarrow> basket_item" where
  "line_of pid ts = \<lparr>item_product_id = pid, item_price = 10, item_timestamp = ts\<rparr>"

definition sale_record :: "nat \<Rightarrow> nat option \<Rightarrow> timestamp \<Rightarrow> purchase" where
  "sale_record uid pid t = \<lparr>buyer_id = uid, sold_product_id = pid, product_name = ''kava 2g'',
     sold_product_type = ''kava'', product_size = ''2g'', price_paid = 10,
     sold_city = ''Vilnius'', sold_district = ''Centras'', purchase_date = t\<rparr>"


definition store_gone :: db where
  "store_gone = store [shopper 7 50 [Hold 1 0, Hold 2 0]] [lot 1 0 0]"

definition store_one :: db where
  "store_one = store [shopper 7 50 [Hold 1 0]] [lot 1 1 1]"

definition store_one_committed :: db where
  "store_one_committed =
     \<lparr>users = [\<lparr>user_id = 7, balance = 40, total_purchases = 1, basket = []\<rparr>],
      products = [lot 1 0 0], purchases = [sale_record 7 (Some 1) 5], discount_codes = []\<rparr>"

text \<open>
  Two shoppers and one fresh lot, and the stores and sessions of a run in which one
  shopper removes a lot that the other one holds; a store with a sold-out row next to a
  reserved lot; a session with a pending top-up invoice.
\<close>

definition market0 :: db where
  "market0 = store [shopper 7 50 [], shopper 8 0 []] [lot 1 1 0]"

definition market_b_added :: "session \<times> db" where
  "market_b_added = snd (add_lot 0 8 (fresh_session, market0))"

definition market_swept :: db where
  "market_swept = clear_all_expired_baskets 900 901 (snd market_b_added)"

definition market_a_added :: "session \<times> db" where
  "market_a_added = snd (add_lot 902 7 (fresh_session, market_swept))"

definition market_b_removed :: "session \<times> db" where
  "market_b_removed = handle_remove_from_basket 900 903 8 1 (fst market_b_added, snd market_a_added)"

definition market_a_added_again :: "session \<times> db" where
  "market_a_added_again = snd (add_lot 904 7 (fst market_a_added, snd market_b_removed))"

definition store_sold_row :: db where
  "store_sold_row = store [shopper 7 50 [Hold 1 0, Hold 2 0]] [lot 1 0 0, lot 2 1 1]"

definition topup_pending :: session where
  "topup_pending = \<lparr>basket_ctx = [], applied_discount = None,
     pending_payment = Some \<lparr>invoice_id = 42, payment_type = ''refill'', fiat_total = 25\<rparr>\<rparr>"

definition topup_store :: db where
  "topup_store = store [shopper 7 5 []] []"

section \<open>Rounding facts\<close>

lemma round_half_even_error: "\<bar>of_int (round_half_even x) - x\<bar> \<le> 1 / 2"
proof -
  have "of_int \<lfloor>x\<rfloor> \<le> x" and "x < of_int \<lfloor>x\<rfloor> + 1"
    by linarith+
  then show ?thesis
    unfolding round_half_even_def Let_def by (auto simp: abs_le_iff)
qed

lemma round_half_even_of_int: "round_half_even (of_int n) = n"
  by (simp add: round_half_even_def)

lemma round_half_even_mono:
  assumes "x \<le> y"
  shows "round_half_even x \<le> round_half_even y"
proof (cases "\<lfloor>x\<rfloor> = \<lfloor>y\<rfloor>")
  case True
  with assms show ?thesis
    unfolding round_half_even_def Let_def by auto
next
  case False
  with assms have lt: "\<lfloor>x\<rfloor> + 1 \<le> \<lfloor>y\<rfloor>"
    using floor_mono [OF assms] by linarith
  have "round_half_even x \<le> \<lfloor>x\<rfloor> + 1"
    unfolding round_half_even_def Let_def by auto
  moreover have "\<lfloor>y\<rfloor> \<le> round_half_even y"
    unfolding round_half_even_def Let_def by auto
  ultimately show ?thesis using lt by linarith
qed

lemma round2_error: "\<bar>round2 x - x\<bar> \<le> 1 / 200"
proof -
  have "\<bar>of_int (round_half_even (x * 100)) - x * 100\<bar> \<le> 1 / 2"
    by (rule round_half_even_error)
  then show ?thesis
    unfolding round2_def by (simp add: abs_le_iff field_simps)
qed

lemma round2_mono: "x \<le> y \<Longrightarrow> round2 x \<le> round2 y"
  unfolding round2_def
  by (simp add: divide_right_mono round_half_even_mono)

lemma round2_zero: "round2 0 = 0"
  by (simp add: round2_def round_half_even_def)

lemma round2_cents: "round2 (of_int n / 100) = of_int n / 100"
  by (simp add: round2_def round_half_even_of_int)

lemma round2_nonneg: "0 \<le> x \<Longrightarrow> 0 \<le> round2 x"
  using round2_mono [of 0 x] by (simp add: round2_zero)

lemma pow2_pos: "0 < pow2 k"
  by (simp add: pow2_def)

lemma fl_nonneg: "0 \<le> x \<Longrightarrow> 0 \<le> fl x"
proof (cases "x = 0")
  case True
  then show ?thesis by (simp add: fl_def)
next
  case False
  assume "0 \<le> x"
  with False have pos: "0 < x" by simp
  let ?u = "pow2 (binary_exponent \<bar>x\<bar> - 52)"
  have "0 \<le> \<bar>x\<bar> / ?u"
    using pow2_pos [of "binary_exponent \<bar>x\<bar> - 52"] by simp
  then have "round_half_even 0 \<le> round_half_even (\<bar>x\<bar> / ?u)"
    by (rule round_half_even_mono)
  then have "0 \<le> round_half_even (\<bar>x\<bar> / ?u)"
    using round_half_even_of_int [of 0] by simp
  then have "0 \<le> of_int (round_half_even (\<bar>x\<bar> / ?u)) * ?u"
    using pow2_pos [of "binary_exponent \<bar>x\<bar> - 52"] by simp
  with pos False show ?thesis
    by (simp add: fl_def Let_def)
qed

lemma py_round2_nonneg: "0 \<le> x \<Longrightarrow> 0 \<le> py_round2 x"
  unfolding py_round2_def by (intro fl_nonneg round2_nonneg)

lemma clear_expired_keeps_codes:
  "discount_codes (snd (clear_expired_basket tmo now uid sd)) = discount_codes (snd sd)"
  by (simp add: clear_expired_basket_def Let_def)

lemma view_basket_keeps_codes:
  "discount_codes (snd (handle_view_basket tmo now uid sd)) = discount_codes (snd sd)"
  using clear_expired_keeps_codes [of tmo now uid sd]
  by (simp add: handle_view_basket_def Let_def split: option.splits validation.splits)

lemma confirm_pay_total_keeps_codes:
  "discount_codes (snd (snd (confirm_pay_total tmo now uid sd))) = discount_codes (snd sd)"
  using clear_expired_keeps_codes [of tmo now uid sd]
    view_basket_keeps_codes [of tmo now uid "clear_expired_basket tmo now uid sd"]
  by (simp add: confirm_pay_total_def Let_def split: option.splits validation.splits)

section \<open>Discount validator: the order of the rules\<close>

text \<open>
  Claim C5, as the code has it. The rules are checked in this order and the first failure
  wins: an empty code text is rejected as \<open>NoCodeProvided\<close>; a non-empty code without
  a row is \<open>NotFound\<close>; a row with the active flag unset is \<open>Inactive\<close>; an
  expiry text that does not parse is \<open>InvalidExpiryData\<close>; an expiry that parses with a
  UTC offset cannot be compared with the local time and gives \<open>UnexpectedError\<close>; an
  expiry without offset that \<open>now\<close> is past is \<open>Expired\<close>; and when the expiry is
  absent or without offset and not yet past, a use cap with \<open>uses_count \<ge> max_uses\<close> is
  \<open>UsageLimitReached\<close>, whatever the subtotal and the discount type or value. The
  validator returns a verdict only, and the handlers that call it on the way to the
  checkout (the basket view and the computation of the total to pay) leave the table of
  discount codes, \<open>uses_count\<close> included, as it was.
\<close>

theorem validate_first_failure_wins:
  "validate_discount_code codes now [] t = Invalid NoCodeProvided \<and>
   (c \<noteq> [] \<longrightarrow>
     (find (\<lambda>r. code r = c) codes = None \<longrightarrow>
        validate_discount_code codes now c t = Invalid NotFound) \<and>
     (\<forall>cd. find (\<lambda>r. code r = c) codes = Some cd \<longrightarrow>
        (\<not> is_active cd \<longrightarrow> validate_discount_code codes now c t = Invalid Inactive) \<and>
        (is_active cd \<and> expiry_date cd = Some Unparseable \<longrightarrow>
           validate_discount_code codes now c t = Invalid InvalidExpiryData) \<and>
        (is_active cd \<and> (\<exists>e. expiry_date cd = Some (ExpiresAtOffset e)) \<longrightarrow>
           validate_discount_code codes now c t = Invalid UnexpectedError) \<and>
        (is_active cd \<and> (\<exists>e. expiry_date cd = Some (ExpiresAt e) \<and> e < now) \<longrightarrow>
           validate_discount_code codes now c t = Invalid Expired) \<and>
        (is_active cd \<and>
         (expiry_date cd = None \<or> (\<exists>e. expiry_date cd = Some (ExpiresAt e) \<and> now \<le> e)) \<and>
         (\<exists>m. max_uses cd = Some m \<and> m \<le> uses_count cd) \<longrightarrow>
           validate_discount_code codes now c t = Invalid UsageLimitReached))) \<and>
   discount_codes (snd (handle_view_basket tmo now uid (s, d))) = discount_codes d \<and>
   discount_codes (snd (snd (confirm_pay_total tmo now uid (s, d)))) = discount_codes d"
proof -
  have "validate_discount_code codes now [] t = Invalid NoCodeProvided"
    by (simp add: validate_discount_code_def)
  moreover have "c \<noteq> [] \<longrightarrow>
     (find (\<lambda>r. code r = c) codes = None \<longrightarrow>
        validate_discount_code codes now c t = Invalid NotFound) \<and>
     (\<forall>cd. find (\<lambda>r. code r = c) codes = Some cd \<longrightarrow>
        (\<not> is_active cd \<longrightarrow> validate_discount_code codes now c t = Invalid Inactive) \<and>
        (is_active cd \<and> expiry_date cd = Some Unparseable \<longrightarrow>
           validate_discount_code codes now c t = Invalid InvalidExpiryData) \<and>
        (is_active cd \<and> (\<exists>e. expiry_date cd = Some (ExpiresAtOffset e)) \<longrightarrow>
           validate_discount_code codes now c t = Invalid UnexpectedError) \<and>
        (is_active cd \<and> (\<exists>e. expiry_date cd = Some (ExpiresAt e) \<and> e < now) \<longrightarrow>
           validate_discount_code codes now c t = Invalid Expired) \<and>
        (is_active cd \<and>
         (expiry_date cd = None \<or> (\<exists>e. expiry_date cd = Some (ExpiresAt e) \<and> now \<le> e)) \<and>
         (\<exists>m. max_uses cd = Some m \<and> m \<le> uses_count cd) \<longrightarrow>
           validate_discount_code codes now c t = Invalid UsageLimitReached))"
    by (auto simp: validate_discount_code_def split: option.splits expiry.splits)
  moreover have "discount_codes (snd (handle_view_basket tmo now uid (s, d))) = discount_codes d"
    using view_basket_keeps_codes [of tmo now uid "(s, d)"] by simp
  moreover have "discount_codes (snd (snd (confirm_pay_total tmo now uid (s, d)))) = discount_codes d"
    using confirm_pay_total_keeps_codes [of tmo now uid "(s, d)"] by simp
  ultimately show ?thesis by blast
qed

theorem validate_first_failure_wins_witness:
  "validate_discount_code [save10, once_used] 0 ''ONCE'' 7 = Invalid UsageLimitReached \<and>
   validate_discount_code [save10, once_used] 0 ''ONCE'' 1000 = Invalid UsageLimitReached \<and>
   validate_discount_code [save10, once_used] 0 ''NOPE'' 7 = Invalid NotFound \<and>
   validate_discount_code [offset_expiry] 0 ''OFFSET'' 7 = Invalid UnexpectedError"
  using validate_first_failure_wins [of "[save10, once_used]" 0 7 "''ONCE''"]
    validate_first_failure_wins [of "[save10, once_used]" 0 1000 "''ONCE''"]
    validate_first_failure_wins [of "[save10, once_used]" 0 7 "''NOPE''"]
    validate_first_failure_wins [of "[offset_expiry]" 0 7 "''OFFSET''"]
  by (simp add: save10_def once_used_def offset_expiry_def)

text \<open>
  The four rules of the claim are not the whole list: a row that is active, capped and
  used up, but whose expiry text does not parse, is rejected for its expiry data and not
  for its use cap; and the empty code text is rejected as no code at all, not as a code
  that was not found.
\<close>

theorem validate_rule_order_counterexample:
  "validate_discount_code [bad_expiry] 0 ''BADEXP'' 10 = Invalid InvalidExpiryData \<and>
   validate_discount_code [bad_expiry] 0 ''BADEXP'' 10 \<noteq> Invalid UsageLimitReached \<and>
   validate_discount_code [bad_expiry] 0 [] 10 = Invalid NoCodeProvided \<and>
   validate_discount_code [bad_expiry] 0 [] 10 \<noteq> Invalid NotFound"
  by (simp add: validate_discount_code_def bad_expiry_def)

section \<open>Discount validator: the amount\<close>

lemma validate_ValidD:
  assumes "validate_discount_code codes now c t = Valid dt"
  shows "\<exists>cd. find (\<lambda>r. code r = c) codes = Some cd \<and> compute_discount cd t = Valid dt"
  using assms
  by (auto simp: validate_discount_code_def split: option.splits if_splits)

text \<open>
  Claim C6, as the code has it, in the double arithmetic of the source (\<open>fl\<close> rounds
  to the nearest double). For a valid code the amount before rounding is
  \<open>fl (fl (subtotal * value) / 100)\<close> for a percentage code and \<open>value\<close> for a fixed one,
  capped at the subtotal (the only clamp the code applies); \<open>discount_amount\<close> is
  \<^verbatim>\<open>round(amount, 2)\<close> and \<open>final_total\<close> is \<^verbatim>\<open>round(max(0, subtotal - amount), 2)\<close>,
  each rounded on its own and not derived from the other. The final total is never
  negative. With a non-negative value (the admin handler stores positive values only) and
  a non-negative subtotal the capped amount lies in \<open>[0, subtotal]\<close> and the discount
  is not negative.
\<close>

theorem discount_amount_clamped:
  assumes "validate_discount_code codes now c t = Valid dt"
  shows "\<exists>cd raw. find (\<lambda>r. code r = c) codes = Some cd \<and>
           (discount_type cd = ''percentage'' \<and> raw = fl (fl (fl t * value_d cd) / 100) \<or>
            discount_type cd = ''fixed'' \<and> raw = fl (value_d cd)) \<and>
           discount_amount dt = py_round2 (min raw (fl t)) \<and>
           final_total dt = py_round2 (max 0 (fl (fl t - min raw (fl t)))) \<and>
           0 \<le> final_total dt \<and>
           (0 \<le> value_d cd \<and> 0 \<le> t \<longrightarrow>
              0 \<le> min raw (fl t) \<and> min raw (fl t) \<le> fl t \<and> 0 \<le> discount_amount dt)"
proof -
  from validate_ValidD [OF assms] obtain cd where
    f: "find (\<lambda>r. code r = c) codes = Some cd" and cdv: "compute_discount cd t = Valid dt"
    by blast
  define raw where "raw = (if discount_type cd = ''percentage''
     then fl (fl (fl t * value_d cd) / 100) else fl (value_d cd))"
  from cdv have ty: "discount_type cd = ''percentage'' \<or> discount_type cd = ''fixed''"
    by (auto simp: compute_discount_def Let_def split: if_splits)
  from cdv have da: "discount_amount dt = py_round2 (min raw (fl t))"
    and ft: "final_total dt = py_round2 (max 0 (fl (fl t - min raw (fl t))))"
    by (auto simp: compute_discount_def Let_def raw_def split: if_splits)
  have ft0: "0 \<le> final_total dt"
    unfolding ft by (rule py_round2_nonneg) simp
  have rawnn: "0 \<le> raw" if "0 \<le> value_d cd" "0 \<le> t"
  proof -
    from that have "0 \<le> fl t * value_d cd" by (simp add: fl_nonneg)
    then have "0 \<le> fl (fl t * value_d cd) / 100" by (simp add: fl_nonneg)
    then have "0 \<le> fl (fl (fl t * value_d cd) / 100)" by (rule fl_nonneg)
    moreover from that have "0 \<le> fl (value_d cd)" by (simp add: fl_nonneg)
    ultimately show ?thesis by (simp add: raw_def)
  qed
  have nn: "0 \<le> min raw (fl t)" if "0 \<le> value_d cd" "0 \<le> t"
    using rawnn [OF that] that(2) by (simp add: fl_nonneg)
  have dnn: "0 \<le> discount_amount dt" if "0 \<le> value_d cd" "0 \<le> t"
    unfolding da using nn [OF that] by (rule py_round2_nonneg)
  have low: "0 \<le> value_d cd \<and> 0 \<le> t \<longrightarrow>
              0 \<le> min raw (fl t) \<and> min raw (fl t) \<le> fl t \<and> 0 \<le> discount_amount dt"
    using nn dnn by simp
  have tyraw: "discount_type cd = ''percentage'' \<and> raw = fl (fl (fl t * value_d cd) / 100) \<or>
            discount_type cd = ''fixed'' \<and> raw = fl (value_d cd)"
    using ty by (auto simp: raw_def)
  show ?thesis
    apply (rule exI [of _ cd])
    apply (rule exI [of _ raw])
    apply (intro conjI)
         apply (rule f)
        apply (rule tyraw)
       apply (rule da)
      apply (rule ft)
     apply (rule ft0)
    apply (rule low)
    done
qed

theorem discount_amount_clamped_witness:
  "validate_discount_code [save10] 0 ''SAVE10'' (25 / 2)
     = Valid \<lparr>details_code = ''SAVE10'', details_type = ''percentage'', details_value = 10,
              discount_amount = 5 / 4, final_total = 45 / 4\<rparr> \<and>
   (\<exists>cd raw. find (\<lambda>r. code r = ''SAVE10'') [save10] = Some cd \<and>
       (5 / 4 :: rat) = py_round2 (min raw (fl (25 / 2))) \<and>
       (45 / 4 :: rat) = py_round2 (max 0 (fl (fl (25 / 2) - min raw (fl (25 / 2))))) \<and>
       0 \<le> min raw (fl (25 / 2)) \<and> min raw (fl (25 / 2)) \<le> fl (25 / 2))"
proof -
  have v: "validate_discount_code [save10] 0 ''SAVE10'' (25 / 2)
     = Valid \<lparr>details_code = ''SAVE10'', details_type = ''percentage'', details_value = 10,
              discount_amount = 5 / 4, final_total = 45 / 4\<rparr>"
    unfolding save10_def by code_simp
  have f: "find (\<lambda>r. code r = ''SAVE10'') [save10] = Some save10"
    by (simp add: save10_def)
  have nn: "0 \<le> value_d save10 \<and> (0::rat) \<le> 25 / 2"
    by (simp add: save10_def)
  from discount_amount_clamped [OF v] obtain cd raw where
    c: "find (\<lambda>r. code r = ''SAVE10'') [save10] = Some cd"
    and d: "discount_amount \<lparr>details_code = ''SAVE10'', details_type = ''percentage'', details_value = 10,
              discount_amount = 5 / 4, final_total = 45 / 4\<rparr> = py_round2 (min raw (fl (25 / 2)))"
    and e: "final_total \<lparr>details_code = ''SAVE10'', details_type = ''percentage'', details_value = 10,
              discount_amount = 5 / 4, final_total = 45 / 4\<rparr>
            = py_round2 (max 0 (fl (fl (25 / 2) - min raw (fl (25 / 2)))))"
    and g: "0 \<le> value_d cd \<and> (0::rat) \<le> 25 / 2 \<longrightarrow>
              0 \<le> min raw (fl (25 / 2)) \<and> min raw (fl (25 / 2)) \<le> fl (25 / 2) \<and>
              0 \<le> discount_amount \<lparr>details_code = ''SAVE10'', details_type = ''percentage'', details_value = 10,
              discount_amount = 5 / 4, final_total = 45 / 4\<rparr>"
    by blast
  from c f have "cd = save10" by simp
  with g nn have h: "0 \<le> min raw (fl (25 / 2)) \<and> min raw (fl (25 / 2)) \<le> fl (25 / 2)" by simp
  from d have d': "(5 / 4 :: rat) = py_round2 (min raw (fl (25 / 2)))" by simp
  from e have e': "(45 / 4 :: rat) = py_round2 (max 0 (fl (fl (25 / 2) - min raw (fl (25 / 2)))))" by simp
  show ?thesis
    using v c d' e' h by blast
qed

text \<open>
  A subtotal of 1.25 with the percentage-10 code: the amount 0.125 rounds to 0.12 and the
  remainder 1.125 rounds to 1.12 (the doubles nearest to these decimals), so the final
  total is not the subtotal minus the discount amount, which is 1.13 in double
  arithmetic.
\<close>

theorem discount_total_counterexample:
  "validate_discount_code [save10] 0 ''SAVE10'' (5 / 4)
     = Valid \<lparr>details_code = ''SAVE10'', details_type = ''percentage'', details_value = 10,
              discount_amount = fl (3 / 25), final_total = fl (28 / 25)\<rparr> \<and>
   fl (5 / 4 - fl (3 / 25)) = fl (113 / 100) \<and>
   fl (28 / 25) \<noteq> fl (5 / 4 - fl (3 / 25))"
  unfolding save10_def by code_simp

text \<open>
  A subtotal of 26.75 with the same code: the double quotient lies just below 2.675, so
  the discount is 2.67 and the final total 24.07.
\<close>

lemma discount_of_26_75:
  "validate_discount_code [save10] 0 ''SAVE10'' (107 / 4)
     = Valid \<lparr>details_code = ''SAVE10'', details_type = ''percentage'', details_value = 10,
              discount_amount = fl (267 / 100), final_total = fl (2407 / 100)\<rparr>"
  unfolding save10_def by code_simp

text \<open>The code has no lower clamp: a stored negative value gives a negative discount.\<close>

lemma negative_value_not_clamped:
  "validate_discount_code
     [\<lparr>code = ''NEG'', discount_type = ''fixed'', value_d = - 5, is_active = True,
       max_uses = None, uses_count = 0, expiry_date = None\<rparr>] 0 ''NEG'' 10
     = Valid \<lparr>details_code = ''NEG'', details_type = ''fixed'', details_value = - 5,
              discount_amount = - 5, final_total = 15\<rparr>"
  by code_simp

section \<open>Expiry sweeper: what is kept and what is released\<close>

lemma find_user_update:
  assumes "\<And>u. user_id (f u) = user_id u"
  shows "find_user uid (update_user uid f us) = map_option f (find_user uid us)"
  using assms by (induction us) (auto simp: find_user_def update_user_def)

lemma find_user_map_same_id:
  assumes "\<And>u. user_id (f u) = user_id u"
  shows "find_user uid (map f us) = map_option f (find_user uid us)"
  using assms by (induction us) (auto simp: find_user_def)

lemma valid_items_filter:
  "valid_items_str_list tmo now items = filter (hold_kept tmo now) items"
  by (induction tmo now items rule: valid_items_str_list.induct) (auto simp: hold_kept_def)

lemma expired_count:
  "count_list (expired_product_ids tmo now items) pid
     = length (filter (hold_expired tmo now pid) items)"
  by (induction tmo now items rule: expired_product_ids.induct) (auto simp: hold_expired_def)

lemma expired_Nil_iff:
  "expired_product_ids tmo now items = [] \<longleftrightarrow>
     (\<forall>pid ts. Hold pid ts \<in> set items \<longrightarrow> now - ts \<le> tmo)"
  by (induction tmo now items rule: expired_product_ids.induct) auto

lemma count_list_concat:
  "count_list (concat xss) x = sum_list (map (\<lambda>xs. count_list xs x) xss)"
  by (induction xss) auto

lemma length_filter_concat:
  "length (filter P (concat xss)) = sum_list (map (\<lambda>xs. length (filter P xs)) xss)"
  by (induction xss) auto

lemma release_fold_distinct:
  assumes "distinct xs"
  shows "fold (\<lambda>(pid, n). release n pid) (map (\<lambda>pid. (pid, c pid)) xs) ps
     = map (\<lambda>p. if product_id p \<in> set xs
                 then p\<lparr>reserved := max 0 (reserved p - c (product_id p))\<rparr> else p) ps"
  using assms
proof (induction xs arbitrary: ps)
  case Nil
  then show ?case by simp
next
  case (Cons x xs)
  then have d: "x \<notin> set xs" "distinct xs" by auto
  show ?case
    using Cons.IH [OF d(2), of "release (c x) x ps"] d(1)
    by (auto simp: release_def update_product_def)
qed

lemma release_all_counter:
  "release_all (counter ids) ps = map (\<lambda>p. released_by (count_list ids (product_id p)) p) ps"
proof -
  have "release_all (counter ids) ps
      = map (\<lambda>p. if product_id p \<in> set (remdups ids)
                 then p\<lparr>reserved := max 0 (reserved p - int (count_list ids (product_id p)))\<rparr>
                 else p) ps"
    unfolding release_all_def counter_def
    by (rule release_fold_distinct) simp
  also have "\<dots> = map (\<lambda>p. released_by (count_list ids (product_id p)) p) ps"
    by (auto simp: released_by_def count_list_0_iff)
  finally show ?thesis .
qed

lemma lazy_sweep_basket:
  assumes "find_user uid (users d) = Some u"
  shows "\<exists>u1. find_user uid (users (snd (clear_expired_basket tmo now uid (s, d)))) = Some u1 \<and>
     (\<forall>pid ts. Hold pid ts \<in> set (basket u1) \<longleftrightarrow> Hold pid ts \<in> set (basket u) \<and> now - ts \<le> tmo)"
proof (cases "basket u = [] \<or> expired_product_ids tmo now (basket u) = []")
  case True
  then have "snd (clear_expired_basket tmo now uid (s, d)) = d"
    using assms by (auto simp: clear_expired_basket_def Let_def)
  moreover from True have "\<forall>pid ts. Hold pid ts \<in> set (basket u) \<longrightarrow> now - ts \<le> tmo"
    by (auto simp: expired_Nil_iff)
  ultimately show ?thesis using assms by auto
next
  case False
  then have "users (snd (clear_expired_basket tmo now uid (s, d)))
     = update_user uid (\<lambda>r. r\<lparr>basket := valid_items_str_list tmo now (basket u)\<rparr>) (users d)"
    using assms by (auto simp: clear_expired_basket_def Let_def)
  then have "find_user uid (users (snd (clear_expired_basket tmo now uid (s, d))))
     = Some (u\<lparr>basket := valid_items_str_list tmo now (basket u)\<rparr>)"
    using assms by (simp add: find_user_update)
  then show ?thesis
    by (auto simp: valid_items_filter hold_kept_def)
qed

lemma lazy_sweep_products:
  assumes "find_user uid (users d) = Some u"
  shows "products (snd (clear_expired_basket tmo now uid (s, d)))
     = map (\<lambda>p. released_by (length (filter (hold_expired tmo now (product_id p)) (basket u))) p)
         (products d)"
proof (cases "basket u = [] \<or> expired_product_ids tmo now (basket u) = []")
  case True
  then have e: "snd (clear_expired_basket tmo now uid (s, d)) = d"
    using assms by (auto simp: clear_expired_basket_def Let_def)
  from True have "\<And>pid. count_list (expired_product_ids tmo now (basket u)) pid = 0"
    by auto
  then have "\<And>pid. length (filter (hold_expired tmo now pid) (basket u)) = 0"
    by (simp only: expired_count)
  then show ?thesis
    unfolding e by (simp add: released_by_def map_idI)
next
  case False
  then have "products (snd (clear_expired_basket tmo now uid (s, d)))
     = release_all (counter (expired_product_ids tmo now (basket u))) (products d)"
    using assms by (auto simp: clear_expired_basket_def Let_def)
  then show ?thesis
    by (simp add: release_all_counter expired_count)
qed

lemma sweep_user_row_id: "user_id (sweep_user_row tmo now u) = user_id u"
  by (simp add: sweep_user_row_def)

lemma sweep_user_row_basket:
  "Hold pid ts \<in> set (basket (sweep_user_row tmo now u))
     \<longleftrightarrow> Hold pid ts \<in> set (basket u) \<and> now - ts \<le> tmo"
proof (cases "basket u \<noteq> [] \<and> expired_product_ids tmo now (basket u) \<noteq> []")
  case True
  then show ?thesis
    by (auto simp: sweep_user_row_def valid_items_filter hold_kept_def)
next
  case False
  then have "\<forall>pid ts. Hold pid ts \<in> set (basket u) \<longrightarrow> now - ts \<le> tmo"
    by (auto simp: expired_Nil_iff)
  with False show ?thesis
    by (auto simp: sweep_user_row_def)
qed

lemma global_sweep_basket:
  assumes "find_user uid (users d) = Some u"
  shows "\<exists>u2. find_user uid (users (clear_all_expired_baskets tmo now d)) = Some u2 \<and>
     (\<forall>pid ts. Hold pid ts \<in> set (basket u2) \<longleftrightarrow> Hold pid ts \<in> set (basket u) \<and> now - ts \<le> tmo)"
proof -
  have "find_user uid (users (clear_all_expired_baskets tmo now d))
      = Some (sweep_user_row tmo now u)"
    using assms
    by (simp add: clear_all_expired_baskets_def find_user_map_same_id sweep_user_row_id)
  then show ?thesis
    by (simp add: sweep_user_row_basket)
qed

lemma global_sweep_products:
  "products (clear_all_expired_baskets tmo now d)
     = map (\<lambda>p. released_by
                  (length (filter (hold_expired tmo now (product_id p)) (concat (map basket (users d))))) p)
         (products d)"
proof -
  have "\<And>pid. count_list (all_expired_product_ids tmo now (users d)) pid
      = length (filter (hold_expired tmo now pid) (concat (map basket (users d))))"
    by (simp add: all_expired_product_ids_def count_list_concat length_filter_concat
        expired_count comp_def)
  then show ?thesis
    by (simp add: clear_all_expired_baskets_def release_all_counter)
qed

text \<open>
  Claim C10. For a shopper with a row, the stored basket after the lazy sweep
  (\<open>clear_expired_basket\<close>) and after the global sweep (\<open>clear_all_expired_baskets\<close>) holds
  a hold exactly when the basket before held it and
  \<open>now - timestamp \<le> basket_timeout\<close>; a hold whose elapsed time equals the timeout is
  kept. Each lot loses one reservation, never below zero, per hold on it with
  \<open>basket_timeout < now - timestamp\<close> (those of the shopper in the lazy sweep, those of
  all shoppers in the global one), and no other row changes.
\<close>

theorem expiry_boundary:
  assumes "find_user uid (users d) = Some u"
  shows "\<exists>u1 u2.
     find_user uid (users (snd (clear_expired_basket tmo now uid (s, d)))) = Some u1 \<and>
     find_user uid (users (clear_all_expired_baskets tmo now d)) = Some u2 \<and>
     (\<forall>pid ts. (Hold pid ts \<in> set (basket u1) \<longleftrightarrow> Hold pid ts \<in> set (basket u) \<and> now - ts \<le> tmo) \<and>
               (Hold pid ts \<in> set (basket u2) \<longleftrightarrow> Hold pid ts \<in> set (basket u) \<and> now - ts \<le> tmo)) \<and>
     (\<forall>pid. Hold pid (now - tmo) \<in> set (basket u) \<longrightarrow>
            Hold pid (now - tmo) \<in> set (basket u1) \<and> Hold pid (now - tmo) \<in> set (basket u2)) \<and>
     products (snd (clear_expired_basket tmo now uid (s, d)))
       = map (\<lambda>p. released_by (length (filter (hold_expired tmo now (product_id p)) (basket u))) p)
           (products d) \<and>
     products (clear_all_expired_baskets tmo now d)
       = map (\<lambda>p. released_by
               (length (filter (hold_expired tmo now (product_id p)) (concat (map basket (users d))))) p)
           (products d)"
proof -
  from lazy_sweep_basket [OF assms, of tmo now s] obtain u1 where
    a: "find_user uid (users (snd (clear_expired_basket tmo now uid (s, d)))) = Some u1"
    and b: "\<forall>pid ts. Hold pid ts \<in> set (basket u1) \<longleftrightarrow> Hold pid ts \<in> set (basket u) \<and> now - ts \<le> tmo"
    by blast
  from global_sweep_basket [OF assms, of tmo now] obtain u2 where
    c: "find_user uid (users (clear_all_expired_baskets tmo now d)) = Some u2"
    and e: "\<forall>pid ts. Hold pid ts \<in> set (basket u2) \<longleftrightarrow> Hold pid ts \<in> set (basket u) \<and> now - ts \<le> tmo"
    by blast
  have f: "\<forall>pid. Hold pid (now - tmo) \<in> set (basket u) \<longrightarrow>
            Hold pid (now - tmo) \<in> set (basket u1) \<and> Hold pid (now - tmo) \<in> set (basket u2)"
    using b e by simp
  show ?thesis
    apply (rule exI [of _ u1])
    apply (rule exI [of _ u2])
    apply (intro conjI)
         apply (rule a)
        apply (rule c)
    using b e apply blast
      apply (rule f)
     apply (rule lazy_sweep_products [OF assms])
    apply (rule global_sweep_products)
    done
qed

section \<open>Basket manager: adding\<close>

lemma first_by_id_None: "first_by_id xs = None \<longleftrightarrow> xs = []"
  by (induction xs) (auto split: option.splits)

lemma first_by_id_Some:
  "first_by_id xs = Some r \<Longrightarrow> r \<in> set xs \<and> (\<forall>q\<in>set xs. product_id r \<le> product_id q)"
proof (induction xs arbitrary: r)
  case Nil
  then show ?case by simp
next
  case (Cons p ps)
  show ?case
  proof (cases "first_by_id ps")
    case None
    then have "ps = []" by (simp add: first_by_id_None)
    with Cons.prems None show ?thesis by simp
  next
    case (Some q)
    from Cons.IH [OF Some] have q: "q \<in> set ps" "\<forall>x\<in>set ps. product_id q \<le> product_id x"
      by auto
    from Cons.prems Some show ?thesis
      using q by (auto split: if_splits)
  qed
qed

text \<open>
  Claim C7, as the code has it. \<open>handle_add_to_basket\<close> runs no sweep: it attempts the
  reservation at once. With no row of the requested city, district, type, size and
  price that has \<open>available > reserved\<close> it returns \<open>OutOfStock\<close> and neither the
  session nor the store changes. Otherwise it reserves the matching free lot of least
  id: in the one transaction that lot's \<open>reserved\<close> is incremented, no other row of
  \<open>products\<close> changes, and a hold with the current timestamp is appended to the stored
  basket, behind every piece that was there (expired ones too); the same item is
  appended to the session basket.
\<close>

theorem add_to_basket_reserves:
  "(free_lots c dn pt sz pr (products d) = [] \<longrightarrow>
      handle_add_to_basket now uid c dn pt sz pr (s, d) = (OutOfStock, s, d)) \<and>
   (free_lots c dn pt sz pr (products d) \<noteq> [] \<longrightarrow>
      (\<exists>row s'. row \<in> set (free_lots c dn pt sz pr (products d)) \<and>
         (\<forall>q\<in>set (free_lots c dn pt sz pr (products d)). product_id row \<le> product_id q) \<and>
         handle_add_to_basket now uid c dn pt sz pr (s, d)
           = (Reserved (product_id row), s',
              d\<lparr>users := update_user uid
                     (\<lambda>u. u\<lparr>basket := basket u @ [Hold (product_id row) now]\<rparr>) (users d),
                products := update_product (product_id row)
                     (\<lambda>p. p\<lparr>reserved := reserved p + 1\<rparr>) (products d)\<rparr>) \<and>
         basket_ctx s' = basket_ctx s @
           [\<lparr>item_product_id = product_id row, item_price = pr, item_timestamp = now\<rparr>]))"
proof (cases "first_by_id (free_lots c dn pt sz pr (products d))")
  case None
  then show ?thesis
    by (simp add: handle_add_to_basket_def first_by_id_None)
next
  case (Some row)
  from first_by_id_Some [OF Some] have
    r: "row \<in> set (free_lots c dn pt sz pr (products d))"
      "\<forall>q\<in>set (free_lots c dn pt sz pr (products d)). product_id row \<le> product_id q"
    by auto
  have ne: "free_lots c dn pt sz pr (products d) \<noteq> []"
    using r(1) by auto
  show ?thesis
    using Some r ne
    by (auto simp: handle_add_to_basket_def Let_def intro!: exI [of _ row])
qed

text \<open>
  The hold taken at time 0 is past its 900 seconds at time 1000 and not yet swept. Adding
  the same kind of lot then finds none free and changes nothing; had the lazy sweep run
  first, the lot would have been released and reserved again.
\<close>

theorem add_without_sweep_counterexample:
  "fst (add_lot 0 7 sd0) = Reserved 1 \<and>
   add_lot 1000 7 sd_held = (OutOfStock, sd_held) \<and>
   fst (add_lot 1000 7 (clear_expired_basket 900 1000 7 sd_held)) = Reserved 1"
  unfolding sd_held_def add_lot_def sd0_def store_def shopper_def lot_def fresh_session_def
  by code_simp

theorem add_to_basket_reserves_witness:
  "free_lots ''Vilnius'' ''Centras'' ''kava'' ''2g'' 10 (products (snd sd0)) \<noteq> [] \<and>
   free_lots ''Vilnius'' ''Centras'' ''kava'' ''2g'' 10 (products (snd sd_held)) = [] \<and>
   handle_add_to_basket 1000 7 ''Vilnius'' ''Centras'' ''kava'' ''2g'' 10 (fst sd_held, snd sd_held)
     = (OutOfStock, fst sd_held, snd sd_held) \<and>
   (\<exists>row s'. row \<in> set (free_lots ''Vilnius'' ''Centras'' ''kava'' ''2g'' 10 (products (snd sd0))) \<and>
      handle_add_to_basket 0 7 ''Vilnius'' ''Centras'' ''kava'' ''2g'' 10 (fst sd0, snd sd0)
        = (Reserved (product_id row), s',
           (snd sd0)\<lparr>users := update_user 7
                  (\<lambda>u. u\<lparr>basket := basket u @ [Hold (product_id row) 0]\<rparr>) (users (snd sd0)),
             products := update_product (product_id row)
                  (\<lambda>p. p\<lparr>reserved := reserved p + 1\<rparr>) (products (snd sd0))\<rparr>))"
proof -
  have a: "free_lots ''Vilnius'' ''Centras'' ''kava'' ''2g'' 10 (products (snd sd0)) \<noteq> []"
    unfolding sd0_def store_def shopper_def lot_def fresh_session_def by code_simp
  have b: "free_lots ''Vilnius'' ''Centras'' ''kava'' ''2g'' 10 (products (snd sd_held)) = []"
    unfolding sd_held_def add_lot_def sd0_def store_def shopper_def lot_def fresh_session_def
    by code_simp
  show ?thesis
    using a b
      add_to_basket_reserves [of "''Vilnius''" "''Centras''" "''kava''" "''2g''" 10 "snd sd0" 0 7 "fst sd0"]
      add_to_basket_reserves [of "''Vilnius''" "''Centras''" "''kava''" "''2g''" 10 "snd sd_held" 1000 7 "fst sd_held"]
    by blast
qed

section \<open>Basket manager: adding, then removing\<close>

lemma find_user_unique:
  assumes "distinct (map user_id us)" and "find_user uid us = Some u"
    and "r \<in> set us" and "user_id r = uid"
  shows "r = u"
  using assms
proof (induction us)
  case Nil
  then show ?case by simp
next
  case (Cons a us)
  show ?case
  proof (cases "user_id a = uid")
    case True
    with Cons.prems have "u = a" by (simp add: find_user_def)
    moreover from True Cons.prems have "r = a"
      by (auto simp: image_iff)
    ultimately show ?thesis by simp
  next
    case False
    with Cons show ?thesis by (auto simp: find_user_def)
  qed
qed

lemma find_user_None_update:
  "find_user uid us = None \<Longrightarrow> update_user uid f us = us"
  by (induction us) (auto simp: find_user_def update_user_def split: if_splits)

lemma release_after_reserve:
  assumes "\<forall>p\<in>set ps. product_id p = pid \<longrightarrow> 0 \<le> reserved p"
  shows "release 1 pid (update_product pid (\<lambda>p. p\<lparr>reserved := reserved p + 1\<rparr>) ps) = ps"
  using assms
  by (induction ps) (auto simp: release_def update_product_def)

lemma find_append_last:
  assumes "\<forall>x\<in>set xs. \<not> P x" and "P y"
  shows "find P (xs @ [y]) = Some y"
  using assms by (induction xs) auto

lemma find_append_some:
  assumes "P y"
  shows "\<exists>z. find P (xs @ [y]) = Some z"
  using assms by (induction xs) auto

lemma add_ReservedD:
  assumes "handle_add_to_basket now uid c dn pt sz pr (s, d) = (Reserved pid, s1, d1)"
  shows "d1 = d\<lparr>users := update_user uid (\<lambda>u. u\<lparr>basket := basket u @ [Hold pid now]\<rparr>) (users d),
                products := update_product pid (\<lambda>p. p\<lparr>reserved := reserved p + 1\<rparr>) (products d)\<rparr>"
    and "basket_ctx s1 = basket_ctx s @
           [\<lparr>item_product_id = pid, item_price = pr, item_timestamp = now\<rparr>]"
  using assms
  by (auto simp: handle_add_to_basket_def Let_def split: option.splits)

lemma remove_products:
  assumes "find (\<lambda>item. item_product_id item = pid) (basket_ctx s) = Some it"
  shows "products (snd (remove_from_basket_tx now uid pid (s, d))) = release 1 pid (products d)"
  using assms by (simp add: remove_from_basket_tx_def Let_def)

lemma remove_snd:
  assumes "find (\<lambda>item. item_product_id item = pid) (basket_ctx s) = Some it"
  shows "snd (remove_from_basket_tx now uid pid (s, d))
     = d\<lparr>users :=
           (if (case find_user uid (users d) of Some u \<Rightarrow> basket u | None \<Rightarrow> []) \<noteq> [] \<and>
               Hold (item_product_id it) (item_timestamp it)
                 \<in> set (case find_user uid (users d) of Some u \<Rightarrow> basket u | None \<Rightarrow> [])
            then update_user uid
                   (\<lambda>u. u\<lparr>basket := remove1 (Hold (item_product_id it) (item_timestamp it))
                       (case find_user uid (users d) of Some u \<Rightarrow> basket u | None \<Rightarrow> [])\<rparr>)
                   (users d)
            else users d),
         products := release 1 pid (products d)\<rparr>"
  using assms by (simp add: remove_from_basket_tx_def Let_def)

lemma remove_basket_ctx:
  assumes "find (\<lambda>item. item_product_id item = pid) (basket_ctx s) = Some it"
  shows "basket_ctx (fst (remove_from_basket_tx now uid pid (s, d))) = remove1 it (basket_ctx s)"
  using assms by (simp add: remove_from_basket_tx_def Let_def)

lemma stored_basket_restored:
  assumes dis: "distinct (map user_id us)"
    and nh: "\<forall>u. find_user uid us = Some u \<longrightarrow> h \<notin> set (basket u)"
    and us1: "us1 = update_user uid (\<lambda>u. u\<lparr>basket := basket u @ [h]\<rparr>) us"
  shows "(if (case find_user uid us1 of Some u \<Rightarrow> basket u | None \<Rightarrow> []) \<noteq> [] \<and>
               h \<in> set (case find_user uid us1 of Some u \<Rightarrow> basket u | None \<Rightarrow> [])
            then update_user uid
                   (\<lambda>u. u\<lparr>basket := remove1 h
                       (case find_user uid us1 of Some u \<Rightarrow> basket u | None \<Rightarrow> [])\<rparr>) us1
            else us1) = us"
proof (cases "find_user uid us")
  case None
  then have e: "us1 = us" by (simp add: us1 find_user_None_update)
  show ?thesis unfolding e using None by simp
next
  case (Some u)
  have f1: "find_user uid us1 = Some (u\<lparr>basket := basket u @ [h]\<rparr>)"
    using Some by (simp add: us1 find_user_update)
  from nh Some have "h \<notin> set (basket u)" by simp
  then have r1: "remove1 h (basket u @ [h]) = basket u"
    by (simp add: remove1_append)
  have same: "\<And>r. r \<in> set us \<Longrightarrow> user_id r = uid \<Longrightarrow> r = u"
    using find_user_unique [OF dis Some] by blast
  have undo: "update_user uid (\<lambda>r. r\<lparr>basket := basket u\<rparr>) us1 = us"
    unfolding us1 update_user_def using same by (auto simp: map_idI)
  show ?thesis
    unfolding f1 by (simp add: r1 undo)
qed

lemma view_basket_store:
  "snd (handle_view_basket tmo now uid sd) = snd (clear_expired_basket tmo now uid sd)"
  by (simp add: handle_view_basket_def Let_def split: option.splits validation.splits)

lemma sweep_store_ignores_session:
  "snd (clear_expired_basket tmo now uid (s, d)) = snd (clear_expired_basket tmo now uid (s', d))"
  by (simp add: clear_expired_basket_def Let_def)

lemma sweep_without_expired_hold:
  assumes "\<forall>u. find_user uid (users d) = Some u \<longrightarrow>
             (\<forall>q ts. Hold q ts \<in> set (basket u) \<longrightarrow> now - ts \<le> tmo)"
  shows "snd (clear_expired_basket tmo now uid (s, d)) = d"
proof (cases "find_user uid (users d)")
  case None
  then show ?thesis by (simp add: clear_expired_basket_def Let_def)
next
  case (Some u)
  with assms have "expired_product_ids tmo now (basket u) = []"
    by (simp add: expired_Nil_iff)
  with Some show ?thesis by (simp add: clear_expired_basket_def Let_def)
qed

lemma filter_map_fixed:
  assumes "\<And>x. P (f x) = P x" and "\<And>x. P x \<Longrightarrow> f x = x"
  shows "filter P (map f xs) = filter P xs"
  using assms by (induction xs) auto

lemma sweep_keeps_rows_without_hold:
  assumes "\<forall>u ts. find_user uid (users d) = Some u \<longrightarrow> Hold pid ts \<notin> set (basket u)"
  shows "filter (\<lambda>p. product_id p = pid) (products (snd (clear_expired_basket tmo now uid (s, d))))
     = filter (\<lambda>p. product_id p = pid) (products d)"
proof (cases "find_user uid (users d)")
  case None
  then show ?thesis by (simp add: clear_expired_basket_def Let_def)
next
  case (Some u)
  from assms Some have "filter (hold_expired tmo now pid) (basket u) = []"
    by (auto simp: filter_empty_conv hold_expired_def split: basket_piece.splits)
  then have "\<And>p. product_id p = pid \<Longrightarrow>
      released_by (length (filter (hold_expired tmo now (product_id p)) (basket u))) p = p"
    by (simp add: released_by_def)
  moreover have "\<And>n p. product_id (released_by n p) = product_id p"
    by (simp add: released_by_def)
  ultimately show ?thesis
    unfolding lazy_sweep_products [OF Some]
    by (intro filter_map_fixed) auto
qed

text \<open>
  Claim C9, as the code has it. After a successful add of lot \<open>pid\<close> (whose
  \<open>reserved\<close> was not negative), the removal transaction of \<open>handle_remove_from_basket\<close>
  restores the \<open>products\<close> table. If moreover user ids are unique and the shopper had
  no entry for the lot before the add (no item of it in the session basket, no hold on it
  in the stored basket), then the removal transaction restores the whole store and the
  session basket; and the whole handler, which ends by refreshing the basket view and
  thereby runs the lazy sweep, leaves the store as the lazy sweep alone would have left
  the store of before the add. So the rows of the lot, hence its free stock, are those of
  before the add, and the stored hold set is the one of before the add less the holds
  that have expired by the time of the removal: the store is restored whenever no stored
  hold of the shopper has expired by then.
\<close>

theorem add_then_remove_round_trip:
  assumes add: "handle_add_to_basket now uid c dn pt sz pr (s, d) = (Reserved pid, s1, d1)"
    and res: "\<forall>p\<in>set (products d). product_id p = pid \<longrightarrow> 0 \<le> reserved p"
  shows "products (snd (remove_from_basket_tx now' uid pid (s1, d1))) = products d \<and>
     (distinct (map user_id (users d)) \<and>
      (\<forall>item\<in>set (basket_ctx s). item_product_id item \<noteq> pid) \<and>
      (\<forall>u ts. find_user uid (users d) = Some u \<longrightarrow> Hold pid ts \<notin> set (basket u)) \<longrightarrow>
        snd (remove_from_basket_tx now' uid pid (s1, d1)) = d \<and>
        basket_ctx (fst (remove_from_basket_tx now' uid pid (s1, d1))) = basket_ctx s \<and>
        snd (handle_remove_from_basket tmo now' uid pid (s1, d1))
          = snd (clear_expired_basket tmo now' uid (s, d)) \<and>
        filter (\<lambda>p. product_id p = pid)
            (products (snd (handle_remove_from_basket tmo now' uid pid (s1, d1))))
          = filter (\<lambda>p. product_id p = pid) (products d) \<and>
        ((\<forall>u. find_user uid (users d) = Some u \<longrightarrow>
             (\<forall>q ts. Hold q ts \<in> set (basket u) \<longrightarrow> now' - ts \<le> tmo)) \<longrightarrow>
           snd (handle_remove_from_basket tmo now' uid pid (s1, d1)) = d))"
proof -
  let ?new = "\<lparr>item_product_id = pid, item_price = pr, item_timestamp = now\<rparr>"
  let ?tx = "remove_from_basket_tx now' uid pid (s1, d1)"
  note d1 = add_ReservedD(1) [OF add] and s1 = add_ReservedD(2) [OF add]
  obtain it where it: "find (\<lambda>item. item_product_id item = pid) (basket_ctx s1) = Some it"
    unfolding s1 using find_append_some [of "\<lambda>item. item_product_id item = pid" ?new "basket_ctx s"]
    by auto
  have p: "products (snd ?tx) = products d"
    unfolding remove_products [OF it]
    by (simp add: d1 release_after_reserve [OF res])
  have full: "snd ?tx = d \<and> basket_ctx (fst ?tx) = basket_ctx s \<and>
        snd (handle_remove_from_basket tmo now' uid pid (s1, d1))
          = snd (clear_expired_basket tmo now' uid (s, d)) \<and>
        filter (\<lambda>p. product_id p = pid)
            (products (snd (handle_remove_from_basket tmo now' uid pid (s1, d1))))
          = filter (\<lambda>p. product_id p = pid) (products d) \<and>
        ((\<forall>u. find_user uid (users d) = Some u \<longrightarrow>
             (\<forall>q ts. Hold q ts \<in> set (basket u) \<longrightarrow> now' - ts \<le> tmo)) \<longrightarrow>
           snd (handle_remove_from_basket tmo now' uid pid (s1, d1)) = d)"
    if dis: "distinct (map user_id (users d))"
      and fresh: "\<forall>item\<in>set (basket_ctx s). item_product_id item \<noteq> pid"
      and nh: "\<forall>u ts. find_user uid (users d) = Some u \<longrightarrow> Hold pid ts \<notin> set (basket u)"
  proof -
    have f: "find (\<lambda>item. item_product_id item = pid) (basket_ctx s1) = Some ?new"
      unfolding s1 by (rule find_append_last) (use fresh in auto)
    have notin: "?new \<notin> set (basket_ctx s)"
      using fresh by auto
    have r: "remove1 ?new (basket_ctx s @ [?new]) = basket_ctx s"
      using notin by (simp add: remove1_append)
    have h: "Hold (item_product_id ?new) (item_timestamp ?new) = Hold pid now"
      by simp
    have nh': "\<forall>u. find_user uid (users d) = Some u \<longrightarrow> Hold pid now \<notin> set (basket u)"
      using nh by blast
    have ud1: "users d1 = update_user uid (\<lambda>u. u\<lparr>basket := basket u @ [Hold pid now]\<rparr>) (users d)"
      by (simp add: d1)
    have pd1: "release 1 pid (products d1) = products d"
      using release_after_reserve [OF res] by (simp add: d1)
    have e: "snd ?tx = d1\<lparr>users := users d, products := products d\<rparr>"
      unfolding remove_snd [OF f] h stored_basket_restored [OF dis nh' ud1] pd1 ..
    have "d1\<lparr>users := users d, products := products d\<rparr> = d"
      by (simp add: d1)
    with e have tx: "snd ?tx = d" by simp
    have bc: "basket_ctx (fst ?tx) = basket_ctx s"
      unfolding remove_basket_ctx [OF f] by (simp add: s1 r)
    have "snd (handle_remove_from_basket tmo now' uid pid (s1, d1))
        = snd (clear_expired_basket tmo now' uid (fst ?tx, snd ?tx))"
      by (simp add: handle_remove_from_basket_def view_basket_store)
    also have "\<dots> = snd (clear_expired_basket tmo now' uid (s, d))"
      unfolding tx by (rule sweep_store_ignores_session)
    finally have whole: "snd (handle_remove_from_basket tmo now' uid pid (s1, d1))
        = snd (clear_expired_basket tmo now' uid (s, d))" .
    have rows: "filter (\<lambda>p. product_id p = pid)
            (products (snd (handle_remove_from_basket tmo now' uid pid (s1, d1))))
          = filter (\<lambda>p. product_id p = pid) (products d)"
      unfolding whole by (rule sweep_keeps_rows_without_hold [OF nh])
    have same: "(\<forall>u. find_user uid (users d) = Some u \<longrightarrow>
             (\<forall>q ts. Hold q ts \<in> set (basket u) \<longrightarrow> now' - ts \<le> tmo)) \<longrightarrow>
           snd (handle_remove_from_basket tmo now' uid pid (s1, d1)) = d"
      unfolding whole using sweep_without_expired_hold by blast
    show ?thesis
      apply (intro conjI)
          apply (rule tx)
         apply (rule bc)
        apply (rule whole)
       apply (rule rows)
      apply (rule same)
      done
  qed
  show ?thesis
    apply (rule conjI)
     apply (rule p)
    apply (rule impI)
    apply (rule full)
      apply blast
     apply blast
    apply blast
    done
qed

theorem add_then_remove_round_trip_witness:
  "handle_add_to_basket 0 7 ''Vilnius'' ''Centras'' ''kava'' ''2g'' 10 (fst sd0, snd sd0)
     = (Reserved 1, fst sd_held, snd sd_held) \<and>
   products (snd (remove_from_basket_tx 5 7 1 (fst sd_held, snd sd_held))) = products (snd sd0) \<and>
   snd (remove_from_basket_tx 5 7 1 (fst sd_held, snd sd_held)) = snd sd0 \<and>
   basket_ctx (fst (remove_from_basket_tx 5 7 1 (fst sd_held, snd sd_held))) = basket_ctx (fst sd0) \<and>
   snd (handle_remove_from_basket 900 5 7 1 (fst sd_held, snd sd_held)) = snd sd0"
proof -
  have a: "handle_add_to_basket 0 7 ''Vilnius'' ''Centras'' ''kava'' ''2g'' 10 (fst sd0, snd sd0)
     = (Reserved 1, fst sd_held, snd sd_held)"
    unfolding sd0_def sd_held_def add_lot_def store_def shopper_def lot_def fresh_session_def by code_simp
  have r: "\<forall>p\<in>set (products (snd sd0)). product_id p = 1 \<longrightarrow> 0 \<le> reserved p"
    unfolding sd0_def sd_held_def add_lot_def store_def shopper_def lot_def fresh_session_def by simp
  have h: "distinct (map user_id (users (snd sd0))) \<and>
      (\<forall>item\<in>set (basket_ctx (fst sd0)). item_product_id item \<noteq> 1) \<and>
      (\<forall>u ts. find_user 7 (users (snd sd0)) = Some u \<longrightarrow> Hold 1 ts \<notin> set (basket u))"
    unfolding sd0_def sd_held_def add_lot_def store_def shopper_def lot_def fresh_session_def
    by (auto simp: find_user_def)
  have k: "\<forall>u. find_user 7 (users (snd sd0)) = Some u \<longrightarrow>
             (\<forall>q ts. Hold q ts \<in> set (basket u) \<longrightarrow> 5 - ts \<le> 900)"
    unfolding sd0_def sd_held_def add_lot_def store_def shopper_def lot_def fresh_session_def
    by (auto simp: find_user_def)
  from add_then_remove_round_trip [OF a r, of 5 900] h k a show ?thesis
    by blast
qed

text \<open>
  In \<open>sd_swept\<close> the shopper's session still lists the lot although the store holds
  nothing for them. The add at time 950 succeeds. The removal then takes the first session
  item of the lot, the stale one: the reservation is released, but the stored basket
  keeps the new hold, which it did not contain before the add, and the session basket
  keeps the new item instead of the old one.
\<close>

theorem round_trip_stale_session_counterexample:
  "basket_ctx (fst sd_swept) = [\<lparr>item_product_id = 1, item_price = 10, item_timestamp = 0\<rparr>] \<and>
   map basket (users (snd sd_swept)) = [[]] \<and>
   map reserved (products (snd sd_swept)) = [0] \<and>
   fst (add_lot 950 7 sd_swept) = Reserved 1 \<and>
   map basket (users (snd (remove_from_basket_tx 951 7 1 (snd (add_lot 950 7 sd_swept)))))
     = [[Hold 1 950]] \<and>
   map basket (users (snd (handle_remove_from_basket 900 951 7 1 (snd (add_lot 950 7 sd_swept)))))
     = [[Hold 1 950]] \<and>
   basket_ctx (fst (remove_from_basket_tx 951 7 1 (snd (add_lot 950 7 sd_swept))))
     = [\<lparr>item_product_id = 1, item_price = 10, item_timestamp = 950\<rparr>] \<and>
   map reserved (products (snd (handle_remove_from_basket 900 951 7 1 (snd (add_lot 950 7 sd_swept)))))
     = [0]"
  unfolding sd_swept_def sd_held_def sd0_def add_lot_def store_def shopper_def lot_def fresh_session_def by code_simp

text \<open>
  An older hold of the shopper on lot 2, taken at time 0; lot 1 added at 901 and removed
  at 902. Lot 1 is as before the add; the sweep that closes the removal has released
  lot 2 and emptied the stored basket.
\<close>

lemma closing_sweep_releases_expired_hold:
  "stock (snd sd_older_hold) = [(1, 1, 0), (2, 1, 1)] \<and>
   map basket (users (snd sd_older_hold)) = [[Hold 2 0]] \<and>
   fst (add_lot 901 7 sd_older_hold) = Reserved 1 \<and>
   snd (remove_from_basket_tx 902 7 1 (snd (add_lot 901 7 sd_older_hold))) = snd sd_older_hold \<and>
   stock (snd (handle_remove_from_basket 900 902 7 1 (snd (add_lot 901 7 sd_older_hold))))
     = [(1, 1, 0), (2, 1, 0)] \<and>
   map basket (users (snd (handle_remove_from_basket 900 902 7 1 (snd (add_lot 901 7 sd_older_hold)))))
     = [[]]"
  unfolding sd_older_hold_def stock_def add_lot_def store_def shopper_def lot_def fresh_session_def
  by code_simp

theorem expiry_boundary_witness:
  "find_user 7 (users (snd sd_two_holds)) = Some (shopper 7 50 [Hold 1 100, Hold 2 99]) \<and>
   (\<exists>u1 u2.
      find_user 7 (users (snd (clear_expired_basket 900 1000 7 sd_two_holds))) = Some u1 \<and>
      find_user 7 (users (clear_all_expired_baskets 900 1000 (snd sd_two_holds))) = Some u2 \<and>
      Hold 1 100 \<in> set (basket u1) \<and> Hold 2 99 \<notin> set (basket u1) \<and>
      Hold 1 100 \<in> set (basket u2) \<and> Hold 2 99 \<notin> set (basket u2))"
proof -
  have h: "find_user 7 (users (snd sd_two_holds)) = Some (shopper 7 50 [Hold 1 100, Hold 2 99])"
    by (simp add: sd_two_holds_def store_def find_user_def shopper_def)
  have b: "basket (shopper 7 50 [Hold 1 100, Hold 2 99]) = [Hold 1 100, Hold 2 99]"
    by (simp add: shopper_def)
  have e: "sd_two_holds = (fresh_session, snd sd_two_holds)"
    by (simp add: sd_two_holds_def)
  from expiry_boundary [OF h, of 900 1000 fresh_session] obtain u1 u2 where
    f1: "find_user 7 (users (snd (clear_expired_basket 900 1000 7 (fresh_session, snd sd_two_holds)))) = Some u1"
    and f2: "find_user 7 (users (clear_all_expired_baskets 900 1000 (snd sd_two_holds))) = Some u2"
    and k: "\<forall>pid ts.
        (Hold pid ts \<in> set (basket u1) \<longleftrightarrow>
           Hold pid ts \<in> set (basket (shopper 7 50 [Hold 1 100, Hold 2 99])) \<and> 1000 - ts \<le> 900) \<and>
        (Hold pid ts \<in> set (basket u2) \<longleftrightarrow>
           Hold pid ts \<in> set (basket (shopper 7 50 [Hold 1 100, Hold 2 99])) \<and> 1000 - ts \<le> 900)"
    by blast
  from k have "Hold 1 100 \<in> set (basket u1) \<and> Hold 2 99 \<notin> set (basket u1) \<and>
      Hold 1 100 \<in> set (basket u2) \<and> Hold 2 99 \<notin> set (basket u2)"
    unfolding b by simp
  with h f1 f2 show ?thesis
    unfolding e [symmetric] by blast
qed

section \<open>Balance settlement: the transaction\<close>

lemma settle_loop_snoc:
  "settle_loop t uid ps (xs @ [x]) = settle_item t uid ps (settle_loop t uid ps xs) x"
  by (simp add: settle_loop_def)

lemma settle_loop_Nil:
  "settle_loop t uid ps [] = \<lparr>loop_products = ps, purchases_to_insert = [],
     processed_product_ids = [], sold_out_during_process = []\<rparr>"
  by (simp add: settle_loop_def)

lemma rowcount_0_iff: "rowcount P rows = 0 \<longleftrightarrow> (\<forall>r\<in>set rows. \<not> P r)"
  by (simp add: rowcount_def filter_empty_conv)

lemma find_user_rowcount:
  "find_user uid us = Some u \<Longrightarrow> rowcount (\<lambda>r. user_id r = uid) us \<noteq> 0"
  by (auto simp: rowcount_0_iff find_user_def find_Some_iff)

lemma settle_item_counts:
  "length (processed_product_ids (settle_item t uid ps st x))
     + length (sold_out_during_process (settle_item t uid ps st x))
   = Suc (length (processed_product_ids st) + length (sold_out_during_process st))"
  by (simp add: settle_item_def Let_def split: option.splits)

lemma settle_item_purchases:
  "length (purchases_to_insert (settle_item t uid ps st x))
     - length (processed_product_ids (settle_item t uid ps st x))
   = length (purchases_to_insert st) - length (processed_product_ids st) \<and>
   (length (purchases_to_insert st) = length (processed_product_ids st) \<longrightarrow>
    length (purchases_to_insert (settle_item t uid ps st x))
      = length (processed_product_ids (settle_item t uid ps st x)))"
  by (simp add: settle_item_def Let_def split: option.splits)

lemma settle_loop_counts:
  "length (processed_product_ids (settle_loop t uid ps xs))
     + length (sold_out_during_process (settle_loop t uid ps xs)) = length xs \<and>
   length (purchases_to_insert (settle_loop t uid ps xs))
     = length (processed_product_ids (settle_loop t uid ps xs))"
proof (induction xs rule: rev_induct)
  case Nil
  then show ?case by (simp add: settle_loop_Nil)
next
  case (snoc x xs)
  then show ?case
    unfolding settle_loop_snoc
    using settle_item_counts [of t uid ps "settle_loop t uid ps xs" x]
      settle_item_purchases [of t uid ps "settle_loop t uid ps xs" x]
    by simp
qed




lemma settle_CommittedD:
  assumes "settle_transaction t uid amount snapshot code_used d = Committed d1 processed sold_out"
  shows "\<exists>u. find_user uid (users d) = Some u \<and> amount \<le> balance u \<and> 0 \<le> amount \<and>
     snapshot \<noteq> [] \<and>
     processed = processed_product_ids (settle_loop t uid (products d) snapshot) \<and>
     sold_out = sold_out_during_process (settle_loop t uid (products d) snapshot) \<and>
     purchases_to_insert (settle_loop t uid (products d) snapshot) \<noteq> [] \<and>
     products d1 = loop_products (settle_loop t uid (products d) snapshot) \<and>
     purchases d1 = purchases d @ purchases_to_insert (settle_loop t uid (products d) snapshot) \<and>
     users d1 = update_user uid
        (\<lambda>r. r\<lparr>total_purchases := total_purchases r
                  + int (length (purchases_to_insert (settle_loop t uid (products d) snapshot))),
               basket := []\<rparr>)
        (update_user uid (\<lambda>r. r\<lparr>balance := fl (balance r - amount)\<rparr>) (users d))"
  using assms
  by (auto simp: settle_transaction_def Let_def split: if_splits option.splits)

text \<open>
  Claim C1. For a settlement that gets as far as the loop (a non-empty snapshot, a
  non-negative amount, a shopper whose balance covers it): if the loop finalizes no line,
  so that there is no row to insert into the purchases log, the transaction is rolled
  back and the operation fails with \<open>NothingSettleable\<close>; the store it leaves is the store it
  found (balance, products and purchases log included), and the session is untouched.
  By \<open>unsettleable_lines_insert_nothing\<close> below this is the case whenever every line's lot
  has no row or has nothing available.
\<close>

theorem nothing_settleable_rolls_back:
  assumes "basket_snapshot \<noteq> []" and "0 \<le> amount"
    and "find_user uid (users d) = Some u" and "amount \<le> balance u"
    and "purchases_to_insert (settle_loop t uid (products d) basket_snapshot) = []"
  shows "settle_transaction t uid amount basket_snapshot code_used d = RolledBack NothingSettleable \<and>
     process_purchase_with_balance t uid amount basket_snapshot code_used (s, d)
       = (PurchaseFailed NothingSettleable, s, d)"
proof -
  have "settle_transaction t uid amount basket_snapshot code_used d = RolledBack NothingSettleable"
    using assms find_user_rowcount [OF assms(3)]
    by (simp add: settle_transaction_def Let_def)
  then show ?thesis
    by (simp add: process_purchase_with_balance_def)
qed





section \<open>Balance settlement: finalizing a lot\<close>

lemma list_all2_map_right:
  assumes "list_all2 R xs ys" and "\<And>x y. x \<in> set xs \<Longrightarrow> y \<in> set ys \<Longrightarrow> R x y \<Longrightarrow> R' x (h y)"
  shows "list_all2 R' xs (map h ys)"
  using assms by (induction rule: list_all2_induct) auto

lemma sold_so_far_ids:
  "list_all2 (sold_so_far pr) ps qs \<Longrightarrow> map product_id qs = map product_id ps"
  by (induction rule: list_all2_induct) (auto simp: sold_so_far_def)

lemma sold_so_far_find:
  assumes "list_all2 (sold_so_far pr) ps qs" and "find_product pid ps = Some p"
  shows "\<exists>q. find_product pid qs = Some q \<and> sold_so_far pr p q"
  using assms
  by (induction rule: list_all2_induct) (auto simp: find_product_def sold_so_far_def split: if_splits)

lemma unique_row:
  assumes "distinct (map product_id qs)" and "q \<in> set qs" and "q' \<in> set qs"
    and "product_id q = product_id q'"
  shows "q = q'"
  using assms by (meson distinct_map inj_onD)

lemma release_ids: "map product_id (release n pid qs) = map product_id qs"
  by (induction qs) (auto simp: release_def update_product_def)

lemma sold_so_far_release:
  "list_all2 (sold_so_far pr) ps qs \<Longrightarrow> list_all2 (sold_so_far pr) ps (release n pid qs)"
  unfolding release_def update_product_def
  by (erule list_all2_map_right) (auto simp: sold_so_far_def)

lemma settle_item_sold_so_far:
  assumes dis: "distinct (map product_id ps)"
    and J: "list_all2 (sold_so_far (processed_product_ids st)) ps (loop_products st)"
  shows "list_all2 (sold_so_far (processed_product_ids (settle_item t uid ps st x))) ps
           (loop_products (settle_item t uid ps st x))"
proof (cases "find_product (item_product_id x) ps")
  case None
  then show ?thesis using J by (simp add: settle_item_def Let_def)
next
  case (Some details)
  let ?pid = "item_product_id x"
  let ?ps1 = "release 1 ?pid (loop_products st)"
  have J1: "list_all2 (sold_so_far (processed_product_ids st)) ps ?ps1"
    using J by (rule sold_so_far_release)
  show ?thesis
  proof (cases "rowcount (\<lambda>p. product_id p = ?pid) (loop_products st) = 0")
    case True
    then show ?thesis using J Some by (simp add: settle_item_def Let_def)
  next
    case nz: False
    show ?thesis
    proof (cases "rowcount (\<lambda>p. product_id p = ?pid \<and> 0 < available p) ?ps1 = 0")
      case True
      have "list_all2 (sold_so_far (processed_product_ids st)) ps
              (update_product ?pid (\<lambda>p. p\<lparr>reserved := reserved p + 1\<rparr>) ?ps1)"
        unfolding update_product_def
        by (rule list_all2_map_right [OF J1]) (auto simp: sold_so_far_def)
      then show ?thesis using Some nz True by (simp add: settle_item_def Let_def)
    next
      case False
      then obtain q0 where q0: "q0 \<in> set ?ps1" "product_id q0 = ?pid" "0 < available q0"
        by (auto simp: rowcount_0_iff)
      have d1: "distinct (map product_id ?ps1)"
        using sold_so_far_ids [OF J1] dis by simp
      have pos: "\<forall>q\<in>set ?ps1. product_id q = ?pid \<longrightarrow> 0 < available q"
        using unique_row [OF d1 _ q0(1)] q0(2,3) by auto
      have "list_all2 (sold_so_far (processed_product_ids st @ [?pid])) ps
              (map (\<lambda>p. if product_id p = ?pid \<and> 0 < available p
                         then p\<lparr>available := available p - 1\<rparr> else p) ?ps1)"
      proof (rule list_all2_map_right [OF J1])
        fix p q assume "q \<in> set ?ps1" and r: "sold_so_far (processed_product_ids st) p q"
        with pos have "product_id q = ?pid \<longrightarrow> 0 < available q" by blast
        with r show "sold_so_far (processed_product_ids st @ [?pid]) p
              (if product_id q = ?pid \<and> 0 < available q then q\<lparr>available := available q - 1\<rparr> else q)"
          by (auto simp: sold_so_far_def)
      qed
      then show ?thesis using Some nz False by (simp add: settle_item_def Let_def)
    qed
  qed
qed

lemma settle_loop_sold_so_far:
  assumes "distinct (map product_id ps)"
  shows "list_all2 (sold_so_far (processed_product_ids (settle_loop t uid ps xs))) ps
           (loop_products (settle_loop t uid ps xs))"
proof (induction xs rule: rev_induct)
  case Nil
  show ?case
    by (simp add: settle_loop_Nil list_all2_same sold_so_far_def)
next
  case (snoc x xs)
  then show ?case
    unfolding settle_loop_snoc by (rule settle_item_sold_so_far [OF assms])
qed

lemma settle_item_processed_known:
  assumes "\<forall>pid\<in>set (processed_product_ids st). find_product pid ps \<noteq> None"
  shows "\<forall>pid\<in>set (processed_product_ids (settle_item t uid ps st x)). find_product pid ps \<noteq> None"
  using assms by (auto simp: settle_item_def Let_def split: option.splits)

lemma settle_loop_processed_known:
  "\<forall>pid\<in>set (processed_product_ids (settle_loop t uid ps xs)). find_product pid ps \<noteq> None"
proof (induction xs rule: rev_induct)
  case Nil
  show ?case by (simp add: settle_loop_Nil)
next
  case (snoc x xs)
  then show ?case
    unfolding settle_loop_snoc by (rule settle_item_processed_known)
qed

lemma products_fold_delete:
  "products (fold delete_product pids d) = filter (\<lambda>p. product_id p \<notin> set pids) (products d)"
  by (induction pids arbitrary: d) (auto simp: delete_product_def intro: filter_cong)

lemma find_product_filter_None:
  "pid \<in> set pids \<Longrightarrow> find_product pid (filter (\<lambda>p. product_id p \<notin> set pids) ps) = None"
  by (auto simp: find_product_def find_None_iff)

text \<open>
  Claim C8, as the code has it. Finalizing a sale is two separately committed steps. The
  settlement transaction lowers \<open>available\<close> and keeps the row: in the committed store
  every sold lot still has its row, with \<open>available\<close> lower than before by the number of
  times the lot was sold (lot ids being unique). The row is deleted afterwards, lot by
  lot, each in a transaction of its own; once \<open>process_purchase_with_balance\<close> has
  returned, no sold lot has a row.
\<close>

theorem finalize_sale_two_steps:
  assumes c: "settle_transaction t uid amount basket_snapshot code_used d = Committed d1 processed sold_out"
    and dis: "distinct (map product_id (products d))"
  shows "\<forall>pid\<in>set processed.
     (\<exists>p p1. find_product pid (products d) = Some p \<and> find_product pid (products d1) = Some p1 \<and>
         available p1 = available p - int (count_list processed pid) \<and> available p1 < available p) \<and>
     find_product pid
       (products (snd (snd (process_purchase_with_balance t uid amount basket_snapshot code_used (s, d)))))
       = None"
proof
  fix pid assume pid: "pid \<in> set processed"
  from settle_CommittedD [OF c] have
    pr: "processed = processed_product_ids (settle_loop t uid (products d) basket_snapshot)"
    and pd: "products d1 = loop_products (settle_loop t uid (products d) basket_snapshot)"
    by auto
  from settle_loop_processed_known [of t uid "products d" basket_snapshot] pid pr
  obtain p where p: "find_product pid (products d) = Some p" by auto
  have J: "list_all2 (sold_so_far processed) (products d) (products d1)"
    unfolding pr pd by (rule settle_loop_sold_so_far [OF dis])
  from sold_so_far_find [OF J p] obtain p1 where
    p1: "find_product pid (products d1) = Some p1" and r: "sold_so_far processed p p1"
    by blast
  from p have "product_id p = pid"
    by (auto simp: find_product_def find_Some_iff)
  with r have av: "available p1 = available p - int (count_list processed pid)"
    by (simp add: sold_so_far_def)
  from pid have "0 < count_list processed pid"
    using count_list_0_iff [of processed pid] by auto
  with av have lt: "available p1 < available p" by simp
  have "products (snd (snd (process_purchase_with_balance t uid amount basket_snapshot code_used (s, d))))
      = filter (\<lambda>p. product_id p \<notin> set processed) (products d1)"
    using c by (simp add: process_purchase_with_balance_def products_fold_delete)
  then have gone: "find_product pid
       (products (snd (snd (process_purchase_with_balance t uid amount basket_snapshot code_used (s, d)))))
       = None"
    using pid by (simp add: find_product_filter_None)
  show "(\<exists>p p1. find_product pid (products d) = Some p \<and> find_product pid (products d1) = Some p1 \<and>
         available p1 = available p - int (count_list processed pid) \<and> available p1 < available p) \<and>
     find_product pid
       (products (snd (snd (process_purchase_with_balance t uid amount basket_snapshot code_used (s, d)))))
       = None"
    using p p1 av lt gone by blast
qed

section \<open>Balance settlement: concrete runs\<close>

theorem nothing_settleable_rolls_back_witness:
  "purchases_to_insert (settle_loop 5 7 (products store_gone) [line_of 1 0, line_of 2 0]) = [] \<and>
   settle_transaction 5 7 20 [line_of 1 0, line_of 2 0] None store_gone
     = RolledBack NothingSettleable \<and>
   process_purchase_with_balance 5 7 20 [line_of 1 0, line_of 2 0] None (fresh_session, store_gone)
     = (PurchaseFailed NothingSettleable, fresh_session, store_gone)"
proof -
  have a: "[line_of 1 0, line_of 2 0] \<noteq> []" and b: "(0::rat) \<le> 20" by simp_all
  have c: "find_user 7 (users store_gone) = Some (shopper 7 50 [Hold 1 0, Hold 2 0])"
    by (simp add: store_gone_def store_def find_user_def shopper_def)
  have e: "20 \<le> balance (shopper 7 50 [Hold 1 0, Hold 2 0])"
    by (simp add: shopper_def)
  have f: "purchases_to_insert (settle_loop 5 7 (products store_gone) [line_of 1 0, line_of 2 0]) = []"
    unfolding store_gone_def line_of_def store_def shopper_def lot_def fresh_session_def by code_simp
  from nothing_settleable_rolls_back [OF a b c e f, of None fresh_session] f
  show ?thesis by blast
qed


text \<open>
  One lot, held and paid for: the store committed by the settlement transaction still has
  the lot's row, with \<open>available\<close> lowered from 1 to 0.
\<close>

theorem finalize_sale_row_survives_commit_counterexample:
  "settle_transaction 5 7 10 [line_of 1 0] None store_one = Committed store_one_committed [1] [] \<and>
   find_product 1 (products store_one) = Some (lot 1 1 1) \<and>
   find_product 1 (products store_one_committed) = Some (lot 1 0 0)"
  unfolding store_one_def store_one_committed_def sale_record_def line_of_def store_def shopper_def lot_def fresh_session_def by code_simp

theorem finalize_sale_two_steps_witness:
  "settle_transaction 5 7 10 [line_of 1 0] None store_one = Committed store_one_committed [1] [] \<and>
   distinct (map product_id (products store_one)) \<and>
   (\<exists>p p1. find_product 1 (products store_one) = Some p \<and>
      find_product 1 (products store_one_committed) = Some p1 \<and> available p1 < available p) \<and>
   find_product 1
     (products (snd (snd (process_purchase_with_balance 5 7 10 [line_of 1 0] None
        (fresh_session, store_one))))) = None"
proof -
  have a: "settle_transaction 5 7 10 [line_of 1 0] None store_one = Committed store_one_committed [1] []"
    unfolding store_one_def store_one_committed_def sale_record_def line_of_def store_def shopper_def lot_def fresh_session_def by code_simp
  have b: "distinct (map product_id (products store_one))"
    unfolding store_one_def store_one_committed_def sale_record_def line_of_def store_def shopper_def lot_def fresh_session_def by simp
  from finalize_sale_two_steps [OF a b, of fresh_session] a b
  show ?thesis by auto
qed

text \<open>
  Claim C4 fails on the code. From a store with one fresh lot (available 1, reserved 0):
  shopper 8 adds the lot at time 0; the scheduled sweep at 901 releases it; shopper 7
  adds it at 902; shopper 8, whose session still lists the lot, removes it at 903, which
  releases shopper 7's reservation; shopper 7 adds the lot again at 904 and pays at 905.
  Every store so far satisfies \<open>0 \<le> reserved \<le> available\<close>. The checkout snapshot holds
  the lot twice; its first line sells the lot, its second line finds
  \<open>available = 0\<close> after \<open>MAX(0, reserved - 1)\<close> has left \<open>reserved\<close> at 0, and the
  compensating \<open>reserved = reserved + 1\<close> of line 652 makes it 1. The transaction commits a
  row with available 0 and reserved 1.
\<close>

theorem reserved_exceeds_available_after_commit:
  "reserved_within_available market0 \<and>
   reserved_within_available (snd market_a_added_again) \<and>
   stock (snd market_a_added_again) = [(1, 1, 1)] \<and>
   fst (confirm_pay_total 900 905 7 market_a_added_again)
     = Proceed 20 [line_of 1 902, line_of 1 904] None \<and>
   snd (snd (confirm_pay_total 900 905 7 market_a_added_again)) = snd market_a_added_again \<and>
   map_option stock (committed_store
      (settle_transaction 905 7 20 [line_of 1 902, line_of 1 904] None (snd market_a_added_again)))
     = Some [(1, 0, 1)] \<and>
   map_option reserved_within_available (committed_store
      (settle_transaction 905 7 20 [line_of 1 902, line_of 1 904] None (snd market_a_added_again)))
     = Some False"
  unfolding market0_def market_b_added_def market_swept_def market_a_added_def market_b_removed_def market_a_added_again_def add_lot_def stock_def committed_store_def reserved_within_available_def line_of_def store_def shopper_def lot_def fresh_session_def by code_simp

text \<open>
  The same statement of line 652, on a snapshot line whose lot has a row with nothing
  available: the row ends with reserved 1 and stays, as it was not sold.
\<close>

lemma sale_of_unavailable_row_reserves_it:
  "reserved_within_available store_sold_row \<and>
   stock (snd (snd (process_purchase_with_balance 5 7 20 [line_of 1 0, line_of 2 0] None
      (fresh_session, store_sold_row)))) = [(1, 0, 1)]"
  unfolding store_sold_row_def stock_def reserved_within_available_def line_of_def store_def shopper_def lot_def fresh_session_def by code_simp

section \<open>Top-up settlement\<close>

lemma check_without_pending:
  "pending_payment s = None \<Longrightarrow> handle_check_cryptobot_payment uid i reply (s, d) = (s, d)"
  by (auto simp: handle_check_cryptobot_payment_def check_resume_def check_read_def Let_def
      split: gateway_reply.splits invoice_status.splits)

lemma check_changes_store_only_by_credit:
  assumes "handle_check_cryptobot_payment uid i reply (s, d) = (s1, d1)" and "d1 \<noteq> d"
  shows "pending_payment s1 = None \<and>
     (\<exists>pp a. pending_payment s = Some pp \<and> invoice_id pp = i \<and> payment_type pp = ''refill'' \<and>
        0 < a \<and> (reply = Invoice StatusPaid (Some a) \<or>
                  reply = Invoice StatusPaid None \<and> a = fiat_total pp) \<and>
        d1 = d\<lparr>users := update_user uid (\<lambda>r. r\<lparr>balance := fl (balance r + a)\<rparr>) (users d)\<rparr>)"
  using assms
  by (auto simp: handle_check_cryptobot_payment_def check_resume_def check_read_def
      process_successful_refill_def Let_def
      split: gateway_reply.splits invoice_status.splits option.splits if_splits)

text \<open>
  Checks that run one after the other credit once: a run that changed the store (its only
  change is the credit) has dropped the pending invoice, so the next run changes nothing;
  and a run from a fresh session, as after a restart, never changes the store.
\<close>

lemma sequential_checks_credit_once:
  assumes first: "handle_check_cryptobot_payment uid i (Invoice StatusPaid paid) (s, d) = (s1, d1)"
    and second: "handle_check_cryptobot_payment uid i (Invoice StatusPaid paid') (s1, d1) = (s2, d2)"
  shows "(d1 \<noteq> d \<longrightarrow> d2 = d1 \<and> s2 = s1) \<and>
     snd (handle_check_cryptobot_payment uid i (Invoice StatusPaid paid') (fresh_session, d1)) = d1"
proof -
  have "d2 = d1 \<and> s2 = s1" if "d1 \<noteq> d"
  proof -
    from check_changes_store_only_by_credit [OF first that] have "pending_payment s1 = None"
      by blast
    from check_without_pending [OF this, of uid i "Invoice StatusPaid paid'" d1] second
    show ?thesis by simp
  qed
  moreover have "snd (handle_check_cryptobot_payment uid i (Invoice StatusPaid paid') (fresh_session, d1)) = d1"
    by (simp add: check_without_pending fresh_session_def)
  ultimately show ?thesis by blast
qed

text \<open>
  Claim C3 fails on the code. The handlers are registered non-blocking
  (\<^verbatim>\<open>Defaults(block=False)\<close> in \<^verbatim>\<open>main.py\<close>), so a second payment-status check for the
  same invoice can start while the first one awaits the gateway. Both have then read the
  pending invoice 42 (a top-up of 25.00) from the session. The first to resume credits
  the balance, 5.00 before, to 30.00 and drops the pending invoice; the second decides by
  what it read when it started, and \<^verbatim>\<open>process_successful_refill\<close> does not look at the
  invoice id: the balance is credited again, to 55.00. Run one after the other, the same
  two checks leave 30.00.
\<close>

theorem overlapping_checks_credit_twice:
  "check_read topup_pending = Some \<lparr>invoice_id = 42, payment_type = ''refill'', fiat_total = 25\<rparr> \<and>
   check_resume 7 42 (check_read topup_pending) (Invoice StatusPaid (Some 25))
       (topup_pending, topup_store)
     = (fresh_session, store [shopper 7 30 []] []) \<and>
   check_resume 7 42 (check_read topup_pending) (Invoice StatusPaid (Some 25))
       (check_resume 7 42 (check_read topup_pending) (Invoice StatusPaid (Some 25))
          (topup_pending, topup_store))
     = (fresh_session, store [shopper 7 55 []] []) \<and>
   handle_check_cryptobot_payment 7 42 (Invoice StatusPaid (Some 25))
       (handle_check_cryptobot_payment 7 42 (Invoice StatusPaid (Some 25))
          (topup_pending, topup_store))
     = (fresh_session, store [shopper 7 30 []] [])"
  unfolding topup_pending_def topup_store_def store_def shopper_def lot_def fresh_session_def
  by code_simp

text \<open>\<open>process_successful_refill\<close> alone credits on every call.\<close>

lemma refill_alone_credits_each_call:
  "snd (process_successful_refill 7 25 42 (snd (process_successful_refill 7 25 42 topup_store)))
     = store [shopper 7 55 []] []"
  unfolding topup_store_def store_def shopper_def lot_def fresh_session_def by code_simp

section \<open>Further facts on settlement and on the stock invariant\<close>

lemma list_all2_right_member:
  "list_all2 R xs ys \<Longrightarrow> y \<in> set ys \<Longrightarrow> \<exists>x\<in>set xs. R x y"
  by (induction rule: list_all2_induct) auto

lemma settle_item_nothing:
  assumes un: "\<forall>p\<in>set ps. product_id p = item_product_id x \<longrightarrow> available p \<le> 0"
    and J: "list_all2 (sold_so_far []) ps (loop_products st)"
    and e: "purchases_to_insert st = []" "processed_product_ids st = []"
  shows "list_all2 (sold_so_far []) ps (loop_products (settle_item t uid ps st x)) \<and>
     purchases_to_insert (settle_item t uid ps st x) = [] \<and>
     processed_product_ids (settle_item t uid ps st x) = []"
proof (cases "find_product (item_product_id x) ps")
  case None
  then show ?thesis using J e by (simp add: settle_item_def Let_def)
next
  case (Some details)
  let ?pid = "item_product_id x"
  let ?ps1 = "release 1 ?pid (loop_products st)"
  have J1: "list_all2 (sold_so_far []) ps ?ps1"
    using J by (rule sold_so_far_release)
  have none: "rowcount (\<lambda>p. product_id p = ?pid \<and> 0 < available p) ?ps1 = 0"
  proof -
    have "\<not> (product_id q = ?pid \<and> 0 < available q)" if "q \<in> set ?ps1" for q
    proof -
      from list_all2_right_member [OF J1 that] obtain p where
        "p \<in> set ps" "sold_so_far [] p q" by blast
      with un show ?thesis by (auto simp: sold_so_far_def)
    qed
    then show ?thesis by (simp add: rowcount_0_iff)
  qed
  have J2: "list_all2 (sold_so_far []) ps
              (update_product ?pid (\<lambda>p. p\<lparr>reserved := reserved p + 1\<rparr>) ?ps1)"
    unfolding update_product_def
    by (rule list_all2_map_right [OF J1]) (auto simp: sold_so_far_def)
  show ?thesis
    using Some none J J2 e by (simp add: settle_item_def Let_def)
qed

lemma settle_item_purchases_kept:
  "purchases_to_insert st \<noteq> [] \<Longrightarrow> purchases_to_insert (settle_item t uid ps st x) \<noteq> []"
  by (auto simp: settle_item_def Let_def split: option.splits)

lemma settle_item_sells_line_with_stock:
  assumes J: "list_all2 (sold_so_far []) ps (loop_products st)"
    and p: "find_product (item_product_id x) ps = Some p" and av: "0 < available p"
  shows "purchases_to_insert (settle_item t uid ps st x) \<noteq> []"
proof -
  let ?pid = "item_product_id x"
  let ?ps1 = "release 1 ?pid (loop_products st)"
  from sold_so_far_find [OF J p] obtain q where
    q: "find_product ?pid (loop_products st) = Some q"
    by blast
  then have "q \<in> set (loop_products st)" "product_id q = ?pid"
    by (auto simp: find_product_def find_Some_iff)
  then have nz: "rowcount (\<lambda>r. product_id r = ?pid) (loop_products st) \<noteq> 0"
    by (auto simp: rowcount_0_iff)
  have J1: "list_all2 (sold_so_far []) ps ?ps1"
    using J by (rule sold_so_far_release)
  from sold_so_far_find [OF J1 p] obtain q1 where
    q1: "find_product ?pid ?ps1 = Some q1" and r: "sold_so_far [] p q1"
    by blast
  from q1 have "q1 \<in> set ?ps1" "product_id q1 = ?pid"
    by (auto simp: find_product_def find_Some_iff)
  moreover from r av have "0 < available q1"
    by (simp add: sold_so_far_def)
  ultimately have nz1: "rowcount (\<lambda>r. product_id r = ?pid \<and> 0 < available r) ?ps1 \<noteq> 0"
    by (auto simp: rowcount_0_iff)
  show ?thesis
    using p nz nz1 by (simp add: settle_item_def Let_def)
qed

text \<open>
  A snapshot line whose lot has a row with something available makes the loop finalize a
  line (lot ids being unique).
\<close>

lemma line_with_stock_is_finalized:
  assumes dis: "distinct (map product_id ps)"
    and x: "x \<in> set xs" "find_product (item_product_id x) ps = Some p" "0 < available p"
  shows "purchases_to_insert (settle_loop t uid ps xs) \<noteq> []"
  using x
proof (induction xs rule: rev_induct)
  case Nil
  then show ?case by simp
next
  case (snoc y ys)
  show ?case
  proof (cases "purchases_to_insert (settle_loop t uid ps ys) = []")
    case False
    then show ?thesis
      unfolding settle_loop_snoc by (rule settle_item_purchases_kept)
  next
    case True
    with snoc have xy: "x = y" by auto
    from True settle_loop_counts [of t uid ps ys]
    have "processed_product_ids (settle_loop t uid ps ys) = []" by simp
    with settle_loop_sold_so_far [OF dis, of t uid ys]
    have J: "list_all2 (sold_so_far []) ps (loop_products (settle_loop t uid ps ys))" by simp
    show ?thesis
      unfolding settle_loop_snoc
      using settle_item_sells_line_with_stock [OF J] snoc.prems(2,3) xy by blast
  qed
qed

lemma unsettleable_lines_insert_nothing:
  assumes "\<forall>x\<in>set xs. \<forall>p\<in>set ps. product_id p = item_product_id x \<longrightarrow> available p \<le> 0"
  shows "purchases_to_insert (settle_loop t uid ps xs) = []"
proof -
  have "list_all2 (sold_so_far []) ps (loop_products (settle_loop t uid ps xs)) \<and>
     purchases_to_insert (settle_loop t uid ps xs) = [] \<and>
     processed_product_ids (settle_loop t uid ps xs) = []"
    using assms
  proof (induction xs rule: rev_induct)
    case Nil
    show ?case by (simp add: settle_loop_Nil list_all2_same sold_so_far_def)
  next
    case (snoc x xs)
    then have ih: "list_all2 (sold_so_far []) ps (loop_products (settle_loop t uid ps xs))"
      "purchases_to_insert (settle_loop t uid ps xs) = []"
      "processed_product_ids (settle_loop t uid ps xs) = []"
      by auto
    from snoc.prems have un: "\<forall>p\<in>set ps. product_id p = item_product_id x \<longrightarrow> available p \<le> 0"
      by simp
    show ?case
      unfolding settle_loop_snoc by (rule settle_item_nothing [OF un ih])
  qed
  then show ?thesis by simp
qed

lemma rows_ok_release: "0 \<le> n \<Longrightarrow> rows_ok ps \<Longrightarrow> rows_ok (release n pid ps)"
  by (induction ps) (auto simp: rows_ok_def release_def update_product_def)

lemma rows_ok_release_all_counter: "rows_ok ps \<Longrightarrow> rows_ok (release_all (counter ids) ps)"
  unfolding release_all_counter
  by (induction ps) (auto simp: rows_ok_def released_by_def)

lemma rows_ok_reserve:
  assumes ok: "rows_ok ps" and dis: "distinct (map product_id ps)"
    and row: "row \<in> set ps" "reserved row < available row"
  shows "rows_ok (update_product (product_id row) (\<lambda>p. p\<lparr>reserved := reserved p + 1\<rparr>) ps)"
proof -
  have "\<forall>p\<in>set ps. product_id p = product_id row \<longrightarrow> p = row"
    using unique_row [OF dis _ row(1)] by blast
  with row(2) have "\<forall>p\<in>set ps. product_id p = product_id row \<longrightarrow> reserved p + 1 \<le> available p"
    by auto
  with ok show ?thesis
    unfolding rows_ok_def update_product_def list_all_iff by auto
qed

text \<open>
  The sweeps, the removal, the clearing and the add (lot ids being unique) keep
  \<open>0 \<le> reserved \<le> available\<close> on every row.
\<close>

lemma other_operations_keep_reserved_within_available:
  assumes ok: "reserved_within_available d"
  shows "reserved_within_available (snd (clear_expired_basket tmo now uid (s, d)))"
    and "reserved_within_available (clear_all_expired_baskets tmo now d)"
    and "reserved_within_available (snd (remove_from_basket_tx now uid pid (s, d)))"
    and "reserved_within_available (snd (handle_clear_basket tmo now uid (s, d)))"
    and "distinct (map product_id (products d)) \<Longrightarrow>
         reserved_within_available (snd (snd (handle_add_to_basket now uid c dn pt sz pr (s, d))))"
proof -
  from ok have r: "rows_ok (products d)"
    by (simp add: reserved_within_available_def rows_ok_def)
  have conv: "\<And>e. reserved_within_available e = rows_ok (products e)"
    by (simp add: reserved_within_available_def rows_ok_def)
  show sweep: "\<And>s. reserved_within_available (snd (clear_expired_basket tmo now uid (s, d)))"
    unfolding conv using r rows_ok_release_all_counter [OF r]
    by (simp add: clear_expired_basket_def Let_def)
  show "reserved_within_available (clear_all_expired_baskets tmo now d)"
    unfolding conv using rows_ok_release_all_counter [OF r]
    by (simp add: clear_all_expired_baskets_def)
  show "reserved_within_available (snd (remove_from_basket_tx now uid pid (s, d)))"
    unfolding conv using r rows_ok_release [OF _ r, of 1 pid]
    by (simp add: remove_from_basket_tx_def Let_def split: option.splits)
  show "reserved_within_available (snd (handle_clear_basket tmo now uid (s, d)))"
  proof (cases "basket_ctx s = []")
    case True
    have "snd (handle_view_basket tmo now uid (s, d)) = snd (clear_expired_basket tmo now uid (s, d))"
      by (simp add: handle_view_basket_def Let_def split: option.splits validation.splits)
    with True sweep [of s] show ?thesis
      by (simp add: handle_clear_basket_def)
  next
    case False
    then show ?thesis
      unfolding conv using rows_ok_release_all_counter [OF r]
      by (simp add: handle_clear_basket_def Let_def)
  qed
  show "reserved_within_available (snd (snd (handle_add_to_basket now uid c dn pt sz pr (s, d))))"
    if dis: "distinct (map product_id (products d))"
  proof (cases "first_by_id (free_lots c dn pt sz pr (products d))")
    case None
    then show ?thesis using ok by (simp add: handle_add_to_basket_def)
  next
    case (Some row)
    from first_by_id_Some [OF Some] have "row \<in> set (products d)" "reserved row < available row"
      by (auto simp: free_lots_def)
    from rows_ok_reserve [OF r dis this] Some show ?thesis
      unfolding conv by (simp add: handle_add_to_basket_def Let_def)
  qed
qed

end
